theory Spec2Isabelle
  imports Complex_Main
begin

section \<open>Python floats\<close>

text \<open>
  Every price, pip distance and P&L of the program is a Python \<^verbatim>\<open>float\<close>, an
  IEEE-754 binary64 number. A finite double is modelled by the real number it denotes,
  and each scalar operation of the source (\<^verbatim>\<open>+\<close>, \<^verbatim>\<open>-\<close>, \<^verbatim>\<open>*\<close>) by the exact
  operation followed by \<open>round64\<close>, rounding to the nearest double with ties to the
  even significand. Comparisons, \<^verbatim>\<open>max\<close> and \<^verbatim>\<open>min\<close> of finite doubles are exact.
  Overflow to infinity and NaN operands are outside this model of scalars: it is
  faithful for magnitudes below \<open>2 ^ 1024\<close>.

  \<open>binade x\<close> is the exponent \<open>e\<close> with \<open>2 ^ e \<le> x < 2 ^ (e + 1)\<close>, kept within the
  exponent range \<open>-1022 .. 1023\<close> of the format (so subnormal numbers share the spacing
  of the smallest normal binade).
\<close>

fun scale_down :: "nat \<Rightarrow> real \<Rightarrow> int" where
  "scale_down 0 x = 0"
| "scale_down (Suc n) x = (if x < 1 then scale_down n (2 * x) - 1 else 0)"

fun scale_up :: "nat \<Rightarrow> real \<Rightarrow> int" where
  "scale_up 0 x = 0"
| "scale_up (Suc n) x = (if 2 \<le> x then scale_up n (x / 2) + 1 else 0)"

definition binade :: "real \<Rightarrow> int" where
  "binade x = (if x < 1 then scale_down 1022 x else scale_up 1023 x)"

definition pow2 :: "int \<Rightarrow> real" where
  "pow2 e = (if 0 \<le> e then 2 ^ nat e else 1 / 2 ^ nat (- e))"

definition round_half_even :: "real \<Rightarrow> int" where
  "round_half_even y =
     (let f = \<lfloor>y\<rfloor>; d = y - of_int f
      in if d < 1 / 2 then f
         else if 1 / 2 < d then f + 1
         else if even f then f else f + 1)"

definition round64 :: "real \<Rightarrow> real" where
  "round64 x =
     (if x = 0 then 0
      else let q = pow2 (binade \<bar>x\<bar> - 52)
           in of_int (round_half_even (x / q)) * q)"

definition fadd :: "real \<Rightarrow> real \<Rightarrow> real" where
  "fadd x y = round64 (x + y)"

definition fsub :: "real \<Rightarrow> real \<Rightarrow> real" where
  "fsub x y = round64 (x - y)"

definition fmul :: "real \<Rightarrow> real \<Rightarrow> real" where
  "fmul x y = round64 (x * y)"

section \<open>Configuration\<close>

text \<open>
  The module-level parameters that \<^verbatim>\<open>baseline_rules.py\<close> and \<^verbatim>\<open>backtest.py\<close> read
  from the environment at import time. The pip distances are the doubles produced by
  \<^verbatim>\<open>float(os.getenv(...))\<close>; the session bounds are kept as the \<^verbatim>\<open>HHMM\<close> strings the
  source stores, since it parses them on every call of \<^verbatim>\<open>_in_session\<close>.
\<close>

record config =
  BUFFER_PIPS :: real
  SL_PIPS :: real
  TP_PIPS :: real
  SESSION_START :: string
  SESSION_END :: string
  FIRST_WINDOW_MIN :: int
  BE_TRIGGER_PIPS :: real
  LOCK_PROFIT_PIPS :: real
  SPREAD_PIPS :: real
  SLIPPAGE_PIPS :: real

text \<open>The defaults of the source, used when no environment variable is set.\<close>

definition default_config :: config where
  "default_config =
     \<lparr> BUFFER_PIPS = 1, SL_PIPS = 8, TP_PIPS = 12,
       SESSION_START = ''0700'', SESSION_END = ''1700'', FIRST_WINDOW_MIN = 30,
       BE_TRIGGER_PIPS = 6, LOCK_PROFIT_PIPS = 0,
       SPREAD_PIPS = round64 (8 / 10), SLIPPAGE_PIPS = round64 (2 / 10) \<rparr>"

section \<open>Pip conversion and the cost model\<close>

text \<open>\<^verbatim>\<open>str.endswith\<close>.\<close>

definition endswith :: "string \<Rightarrow> string \<Rightarrow> bool" where
  "endswith s suf = (length suf \<le> length s \<and> drop (length s - length suf) s = suf)"

text \<open>
  \<^verbatim>\<open>pips_to_price\<close>: the literals \<^verbatim>\<open>0.01\<close> and \<^verbatim>\<open>0.0001\<close> are the doubles nearest to
  \<open>1/100\<close> and \<open>1/10000\<close>.
\<close>

definition pips_to_price :: "real \<Rightarrow> string \<Rightarrow> real" where
  "pips_to_price pips instrument =
     (if endswith instrument ''_JPY'' then fmul pips (round64 (1 / 100))
      else fmul pips (round64 (1 / 10000)))"

text \<open>\<^verbatim>\<open>apply_costs\<close> of \<^verbatim>\<open>backtest.py\<close>; \<^verbatim>\<open>a + b + c\<close> is \<^verbatim>\<open>(a + b) + c\<close>.\<close>

definition apply_costs :: "config \<Rightarrow> real \<Rightarrow> string \<Rightarrow> string \<Rightarrow> real" where
  "apply_costs cfg price side instrument =
     (let spread = pips_to_price (SPREAD_PIPS cfg) instrument;
          slip = pips_to_price (SLIPPAGE_PIPS cfg) instrument
      in if side = ''long'' then fadd (fadd price spread) slip
         else fsub (fsub price spread) slip)"

section \<open>Timestamps and the session window\<close>

text \<open>
  A \<^verbatim>\<open>pd.Timestamp\<close> of the index is its number of nanoseconds since the Unix epoch,
  read in UTC (the source converts or localises every timestamp to UTC before use).
  \<^verbatim>\<open>strftime("%Y-%m-%d")\<close> is modelled by the number of the UTC calendar day, which
  determines the date string and is determined by it.
\<close>

type_synonym timestamp = int

definition NS_PER_MINUTE :: int where
  "NS_PER_MINUTE = 60000000000"

definition NS_PER_DAY :: int where
  "NS_PER_DAY = 86400000000000"

text \<open>\<^verbatim>\<open>tsu.hour * 60 + tsu.minute\<close>.\<close>

definition minute_of_day :: "timestamp \<Rightarrow> int" where
  "minute_of_day ts = (ts mod NS_PER_DAY) div NS_PER_MINUTE"

definition session_day_key :: "timestamp \<Rightarrow> int" where
  "session_day_key ts = ts div NS_PER_DAY"

datatype error = ValueError | AttributeError

text \<open>
  \<^verbatim>\<open>int(s)\<close> on a string: a non-empty string of ASCII digits is read in base ten, and
  the empty string raises \<^verbatim>\<open>ValueError\<close>. Python also accepts surrounding blanks, a
  sign and single underscores between digits; such session strings are not modelled
  and are reported as \<^verbatim>\<open>ValueError\<close> here, so every statement below that depends on
  a session bound assumes that it parses in this model.
\<close>

definition is_digit :: "char \<Rightarrow> bool" where
  "is_digit c = (48 \<le> (of_char c :: nat) \<and> (of_char c :: nat) \<le> 57)"

definition py_int :: "string \<Rightarrow> error + int" where
  "py_int s =
     (if s \<noteq> [] \<and> list_all is_digit s
      then Inr (fold (\<lambda>c n. 10 * n + (of_char c - 48)) s 0)
      else Inl ValueError)"

definition hhmm_to_minutes :: "string \<Rightarrow> error + int" where
  "hhmm_to_minutes hhmm =
     (case py_int (take 2 hhmm) of
        Inl e \<Rightarrow> Inl e
      | Inr h \<Rightarrow> (case py_int (drop 2 hhmm) of
                    Inl e \<Rightarrow> Inl e
                  | Inr m \<Rightarrow> Inr (h * 60 + m)))"

text \<open>
  \<^verbatim>\<open>_in_session\<close>. The chained comparison \<^verbatim>\<open>a <= minutes <= b\<close> evaluates \<^verbatim>\<open>b\<close>
  only when \<^verbatim>\<open>a <= minutes\<close> holds.
\<close>

definition in_session :: "config \<Rightarrow> timestamp \<Rightarrow> error + bool" where
  "in_session cfg ts =
     (let minutes = minute_of_day ts
      in case hhmm_to_minutes (SESSION_START cfg) of
           Inl e \<Rightarrow> Inl e
         | Inr s \<Rightarrow>
             if s \<le> minutes
             then (case hhmm_to_minutes (SESSION_END cfg) of
                     Inl e \<Rightarrow> Inl e
                   | Inr e \<Rightarrow> Inr (minutes \<le> e))
             else Inr False)"

text \<open>\<^verbatim>\<open>Index.map(f)\<close>: \<open>f\<close> on every label in order; the first exception ends it.\<close>

fun index_map :: "('a \<Rightarrow> error + 'b) \<Rightarrow> 'a list \<Rightarrow> error + 'b list" where
  "index_map f [] = Inr []"
| "index_map f (x # xs) =
     (case f x of
        Inl e \<Rightarrow> Inl e
      | Inr y \<Rightarrow> (case index_map f xs of Inl e \<Rightarrow> Inl e | Inr ys \<Rightarrow> Inr (y # ys)))"

text \<open>Boolean indexing \<^verbatim>\<open>xs[flags]\<close>, and \<^verbatim>\<open>pd.unique\<close> (order of first appearance).\<close>

definition select :: "'a list \<Rightarrow> bool list \<Rightarrow> 'a list" where
  "select xs flags = map fst (filter snd (zip xs flags))"

fun unique :: "'a list \<Rightarrow> 'a list" where
  "unique [] = []"
| "unique (x # xs) = x # unique (filter (\<lambda>y. y \<noteq> x) xs)"

section \<open>Price series and trades\<close>

text \<open>
  The rows of a candle frame, each with its label in the \<^verbatim>\<open>DatetimeIndex\<close>, are a list.
  On an index with a repeated label pandas' label lookup returns every match, so that
  the opening window taken at line 83 is misaligned or an \<^verbatim>\<open>IndexError\<close> is raised;
  such frames are not modelled: \<open>loc\<close> below is the lookup on an index whose labels
  are pairwise different (lemma \<open>loc_distinct\<close>), where it returns exactly one flag for
  each label asked for.
\<close>

record bar =
  open_price :: real
  high :: real
  low :: real
  close :: real

type_synonym frame = "(timestamp \<times> bar) list"

text \<open>
  The frames handed to \<^verbatim>\<open>make_signals\<close>. \<open>Columnless\<close> is \<^verbatim>\<open>pd.DataFrame()\<close>, the
  frame without rows and columns that \<^verbatim>\<open>fetch_history\<close> returns when no candle was
  fetched; its index is the default \<^verbatim>\<open>RangeIndex\<close>, which has no attribute \<^verbatim>\<open>tz\<close>.
  \<open>Candles\<close> is a frame with the candle columns and a \<^verbatim>\<open>DatetimeIndex\<close>, empty or not.
\<close>

datatype data_frame = Columnless | Candles frame

record trade =
  time :: timestamp
  side :: string
  entry :: real
  sl :: real
  tp :: real
  exit :: "real option"
  exit_time :: "timestamp option"
  exit_reason :: "string option"

text \<open>
  \<^verbatim>\<open>_first_window_mask\<close>: the mask is a Boolean list aligned with the index.
\<close>

fun first_window_loop ::
  "config \<Rightarrow> timestamp list \<Rightarrow> int list \<Rightarrow> int list \<Rightarrow> bool list \<Rightarrow> error + bool list" where
  "first_window_loop cfg index keys [] first_mask = Inr first_mask"
| "first_window_loop cfg index keys (day # days) first_mask =
     (case index_map (in_session cfg) index of
        Inl e \<Rightarrow> Inl e
      | Inr in_sess \<Rightarrow>
          let day_idx = map2 (\<and>) (map (\<lambda>k. k = day) keys) in_sess;
              day_times = select index day_idx
          in if length day_times = 0 then first_window_loop cfg index keys days first_mask
             else
               let start_time = hd day_times;
                   cutoff = start_time + FIRST_WINDOW_MIN cfg * NS_PER_MINUTE
               in first_window_loop cfg index keys days
                    (map2 (\<or>) first_mask (map (\<lambda>t. start_time \<le> t \<and> t < cutoff) index)))"

definition first_window_mask :: "config \<Rightarrow> frame \<Rightarrow> error + bool list" where
  "first_window_mask cfg df =
     (let index = map fst df;
          keys = map session_day_key index
      in first_window_loop cfg index keys (unique keys) (map (\<lambda>_. False) index))"

text \<open>
  \<^verbatim>\<open>first_mask.loc[labels]\<close>: the value stored under each label. Every label asked for
  is a label of the frame the mask was built on, so the \<^verbatim>\<open>KeyError\<close> case does not
  arise; it is given the value \<open>False\<close>.
\<close>

definition loc :: "timestamp list \<Rightarrow> bool list \<Rightarrow> timestamp list \<Rightarrow> bool list" where
  "loc index flags labels =
     map (\<lambda>t. case map_of (zip index flags) t of Some b \<Rightarrow> b | None \<Rightarrow> False) labels"

text \<open>\<^verbatim>\<open>Series.max()\<close> and \<^verbatim>\<open>Series.min()\<close> of a non-empty column.\<close>

fun series_max :: "real list \<Rightarrow> real" where
  "series_max [x] = x"
| "series_max (x # y # ys) = max x (series_max (y # ys))"

fun series_min :: "real list \<Rightarrow> real" where
  "series_min [x] = x"
| "series_min (x # y # ys) = min x (series_min (y # ys))"

section \<open>The breakout trade simulator\<close>

text \<open>
  The local variables of the loop over one day's bars, together with the ledger
  \<^verbatim>\<open>trades\<close> that the loop appends to. At the start of a day the name \<^verbatim>\<open>trade\<close> is
  unbound or still bound to an earlier day's trade; it is read only after \<^verbatim>\<open>entered\<close>
  has been set, which happens together with its rebinding, so every day starts with
  \<open>trade = None\<close>.
\<close>

record sim_state =
  entered :: bool
  moved_be :: bool
  high_water :: "real option"
  low_water :: "real option"
  trade :: "trade option"
  trades :: "trade list"

datatype 'a flow = Continue 'a | Break 'a

definition flow_state :: "'a flow \<Rightarrow> 'a" where
  "flow_state f = (case f of Continue s \<Rightarrow> s | Break s \<Rightarrow> s)"

definition init_state :: "trade list \<Rightarrow> sim_state" where
  "init_state trades0 =
     \<lparr> entered = False, moved_be = False, high_water = None, low_water = None,
       trade = None, trades = trades0 \<rparr>"

text \<open>Lines 117--122: high-water mark and breakeven ratchet of a long.\<close>

definition breakeven_long ::
  "config \<Rightarrow> string \<Rightarrow> bar \<Rightarrow> sim_state \<Rightarrow> trade \<Rightarrow> sim_state \<times> trade" where
  "breakeven_long cfg instrument row st tr =
     (let hw = (case high_water st of Some h \<Rightarrow> max h (high row) | None \<Rightarrow> high row);
          be_trigger_price = fadd (entry tr) (pips_to_price (BE_TRIGGER_PIPS cfg) instrument)
      in if \<not> moved_be st \<and> be_trigger_price \<le> hw
         then (let new_sl = fadd (entry tr) (pips_to_price (LOCK_PROFIT_PIPS cfg) instrument)
               in (st\<lparr>high_water := Some hw, moved_be := True\<rparr>, tr\<lparr>sl := max (sl tr) new_sl\<rparr>))
         else (st\<lparr>high_water := Some hw\<rparr>, tr))"

text \<open>Lines 123--134: stop-loss, then take-profit, of a long.\<close>

definition exit_long :: "timestamp \<Rightarrow> bar \<Rightarrow> sim_state \<Rightarrow> trade \<Rightarrow> sim_state flow" where
  "exit_long t row st tr =
     (if low row \<le> sl tr
      then (let tr' = tr\<lparr>exit := Some (sl tr), exit_time := Some t, exit_reason := Some ''SL''\<rparr>
            in Break (st\<lparr>trade := Some tr', trades := trades st @ [tr']\<rparr>))
      else if tp tr \<le> high row
      then (let tr' = tr\<lparr>exit := Some (tp tr), exit_time := Some t, exit_reason := Some ''TP''\<rparr>
            in Break (st\<lparr>trade := Some tr', trades := trades st @ [tr']\<rparr>))
      else Continue (st\<lparr>trade := Some tr\<rparr>))"

text \<open>Lines 136--141: low-water mark and breakeven ratchet of a short.\<close>

definition breakeven_short ::
  "config \<Rightarrow> string \<Rightarrow> bar \<Rightarrow> sim_state \<Rightarrow> trade \<Rightarrow> sim_state \<times> trade" where
  "breakeven_short cfg instrument row st tr =
     (let lw = (case low_water st of Some l \<Rightarrow> min l (low row) | None \<Rightarrow> low row);
          be_trigger_price = fsub (entry tr) (pips_to_price (BE_TRIGGER_PIPS cfg) instrument)
      in if \<not> moved_be st \<and> lw \<le> be_trigger_price
         then (let new_sl = fsub (entry tr) (pips_to_price (LOCK_PROFIT_PIPS cfg) instrument)
               in (st\<lparr>low_water := Some lw, moved_be := True\<rparr>, tr\<lparr>sl := min (sl tr) new_sl\<rparr>))
         else (st\<lparr>low_water := Some lw\<rparr>, tr))"

text \<open>Lines 142--153: stop-loss, then take-profit, of a short.\<close>

definition exit_short :: "timestamp \<Rightarrow> bar \<Rightarrow> sim_state \<Rightarrow> trade \<Rightarrow> sim_state flow" where
  "exit_short t row st tr =
     (if sl tr \<le> high row
      then (let tr' = tr\<lparr>exit := Some (sl tr), exit_time := Some t, exit_reason := Some ''SL''\<rparr>
            in Break (st\<lparr>trade := Some tr', trades := trades st @ [tr']\<rparr>))
      else if low row \<le> tp tr
      then (let tr' = tr\<lparr>exit := Some (tp tr), exit_time := Some t, exit_reason := Some ''TP''\<rparr>
            in Break (st\<lparr>trade := Some tr', trades := trades st @ [tr']\<rparr>))
      else Continue (st\<lparr>trade := Some tr\<rparr>))"

text \<open>
  One iteration of \<^verbatim>\<open>for t, row in day_df.iterrows()\<close> (lines 98--153). \<open>Continue\<close>
  goes on with the next bar (also after \<^verbatim>\<open>continue\<close>), \<open>Break\<close> leaves the loop.
\<close>

definition bar_step ::
  "config \<Rightarrow> string \<Rightarrow> real \<Rightarrow> real \<Rightarrow> timestamp \<Rightarrow> bar \<Rightarrow> sim_state \<Rightarrow> sim_state flow" where
  "bar_step cfg instrument long_trig short_trig t row st =
     (if \<not> entered st then
        if long_trig < close row then
          Continue (st\<lparr>trade := Some
                        \<lparr> time = t, side = ''long'', entry = close row,
                          sl = fsub (close row) (pips_to_price (SL_PIPS cfg) instrument),
                          tp = fadd (close row) (pips_to_price (TP_PIPS cfg) instrument),
                          exit = None, exit_time = None, exit_reason = None \<rparr>,
                      entered := True, high_water := Some (high row)\<rparr>)
        else if close row < short_trig then
          Continue (st\<lparr>trade := Some
                        \<lparr> time = t, side = ''short'', entry = close row,
                          sl = fadd (close row) (pips_to_price (SL_PIPS cfg) instrument),
                          tp = fsub (close row) (pips_to_price (TP_PIPS cfg) instrument),
                          exit = None, exit_time = None, exit_reason = None \<rparr>,
                      entered := True, low_water := Some (low row)\<rparr>)
        else Continue st
      else
        (case trade st of
           None \<Rightarrow> Continue st
         | Some tr \<Rightarrow>
             if side tr = ''long''
             then (case breakeven_long cfg instrument row st tr of
                     (st1, tr1) \<Rightarrow> exit_long t row st1 tr1)
             else (case breakeven_short cfg instrument row st tr of
                     (st1, tr1) \<Rightarrow> exit_short t row st1 tr1)))"

fun bars_loop ::
  "config \<Rightarrow> string \<Rightarrow> real \<Rightarrow> real \<Rightarrow> frame \<Rightarrow> sim_state \<Rightarrow> sim_state flow" where
  "bars_loop cfg instrument long_trig short_trig [] st = Continue st"
| "bars_loop cfg instrument long_trig short_trig ((t, row) # rest) st =
     (case bar_step cfg instrument long_trig short_trig t row st of
        Break st' \<Rightarrow> Break st'
      | Continue st' \<Rightarrow> bars_loop cfg instrument long_trig short_trig rest st')"

text \<open>Lines 155--160: the forced close at the end of the day.\<close>

definition eod_close :: "frame \<Rightarrow> sim_state \<Rightarrow> sim_state" where
  "eod_close day_df st =
     (case trade st of
        None \<Rightarrow> st
      | Some tr \<Rightarrow>
          if entered st \<and> exit tr = None
          then (let last_t = fst (last day_df);
                    tr' = tr\<lparr>exit := Some (close (snd (last day_df))), exit_time := Some last_t,
                             exit_reason := Some ''EOD''\<rparr>
                in st\<lparr>trade := Some tr', trades := trades st @ [tr']\<rparr>)
          else st)"

text \<open>
  The opening range and the two triggers of a day (lines 86--90), and the body of
  \<^verbatim>\<open>for day in pd.unique(day_keys)\<close> (lines 80--160), which returns the ledger.
\<close>

definition long_trigger :: "config \<Rightarrow> string \<Rightarrow> frame \<Rightarrow> real" where
  "long_trigger cfg instrument fw =
     fadd (series_max (map (\<lambda>r. high (snd r)) fw)) (pips_to_price (BUFFER_PIPS cfg) instrument)"

definition short_trigger :: "config \<Rightarrow> string \<Rightarrow> frame \<Rightarrow> real" where
  "short_trigger cfg instrument fw =
     fsub (series_min (map (\<lambda>r. low (snd r)) fw)) (pips_to_price (BUFFER_PIPS cfg) instrument)"

definition day_frame :: "frame \<Rightarrow> int list \<Rightarrow> int \<Rightarrow> frame" where
  "day_frame df day_keys day = select df (map (\<lambda>k. k = day) day_keys)"

definition day_body ::
  "config \<Rightarrow> string \<Rightarrow> frame \<Rightarrow> bool list \<Rightarrow> int list \<Rightarrow> int \<Rightarrow> trade list \<Rightarrow> trade list" where
  "day_body cfg instrument df first_mask day_keys day trades0 =
     (let day_df = day_frame df day_keys day
      in if day_df = [] then trades0
         else
           let fw = select day_df (loc (map fst df) first_mask (map fst day_df))
           in if fw = [] then trades0
              else
                let long_trig = long_trigger cfg instrument fw;
                    short_trig = short_trigger cfg instrument fw;
                    st = flow_state (bars_loop cfg instrument long_trig short_trig day_df
                                       (init_state trades0))
                in trades (eod_close day_df st))"

fun days_loop ::
  "config \<Rightarrow> string \<Rightarrow> frame \<Rightarrow> bool list \<Rightarrow> int list \<Rightarrow> int list \<Rightarrow> trade list \<Rightarrow> trade list" where
  "days_loop cfg instrument df first_mask day_keys [] trades0 = trades0"
| "days_loop cfg instrument df first_mask day_keys (day # days) trades0 =
     days_loop cfg instrument df first_mask day_keys days
       (day_body cfg instrument df first_mask day_keys day trades0)"

text \<open>
  \<^verbatim>\<open>make_signals\<close>. Line 66 reads \<^verbatim>\<open>df.index.tz\<close>, which raises \<^verbatim>\<open>AttributeError\<close>
  on the column-less frame before anything else is done.
\<close>

definition make_signals :: "config \<Rightarrow> data_frame \<Rightarrow> string \<Rightarrow> error + trade list" where
  "make_signals cfg frame0 instrument =
     (case frame0 of
        Columnless \<Rightarrow> Inl AttributeError
      | Candles df0 \<Rightarrow>
          (case index_map (in_session cfg) (map fst df0) of
             Inl e \<Rightarrow> Inl e
           | Inr in_sess \<Rightarrow>
               let df = select df0 in_sess
               in if df = [] then Inr []
                  else (case first_window_mask cfg df of
                          Inl e \<Rightarrow> Inl e
                        | Inr first_mask \<Rightarrow>
                            let day_keys = map (\<lambda>r. session_day_key (fst r)) df
                            in Inr (days_loop cfg instrument df first_mask day_keys
                                      (unique day_keys) []))))"

section \<open>NumPy doubles with infinities and NaN\<close>

text \<open>
  The results of \<^verbatim>\<open>metrics\<close> are NumPy doubles, which may be infinite or NaN. \<open>Num x\<close>
  is the finite double \<open>x\<close>. An operation on finite doubles is the exact operation,
  rounded by \<open>round64\<close>; a rounded magnitude of \<open>2 ^ 1024\<close> or more overflows to an
  infinity. Zero is \<open>+0.0\<close>: the only divisors of this program that can vanish are
  absolute values.
\<close>

datatype np_float = Num real | PosInf | NegInf | NaN

definition np_round :: "real \<Rightarrow> np_float" where
  "np_round x =
     (let r = round64 x
      in if 2 ^ 1024 \<le> r then PosInf else if r \<le> - (2 ^ 1024) then NegInf else Num r)"

fun np_neg :: "np_float \<Rightarrow> np_float" where
  "np_neg (Num x) = Num (- x)"
| "np_neg PosInf = NegInf"
| "np_neg NegInf = PosInf"
| "np_neg NaN = NaN"

fun np_abs :: "np_float \<Rightarrow> np_float" where
  "np_abs (Num x) = Num \<bar>x\<bar>"
| "np_abs PosInf = PosInf"
| "np_abs NegInf = PosInf"
| "np_abs NaN = NaN"

fun np_add :: "np_float \<Rightarrow> np_float \<Rightarrow> np_float" where
  "np_add (Num x) (Num y) = np_round (x + y)"
| "np_add NaN b = NaN"
| "np_add a NaN = NaN"
| "np_add PosInf NegInf = NaN"
| "np_add NegInf PosInf = NaN"
| "np_add PosInf b = PosInf"
| "np_add a PosInf = PosInf"
| "np_add NegInf b = NegInf"
| "np_add a NegInf = NegInf"

definition np_sub :: "np_float \<Rightarrow> np_float \<Rightarrow> np_float" where
  "np_sub a b = np_add a (np_neg b)"

text \<open>The sign of an infinite product or quotient, from the signs of the operands.\<close>

definition np_inf :: "bool \<Rightarrow> np_float" where
  "np_inf positive = (if positive then PosInf else NegInf)"

fun np_mul :: "np_float \<Rightarrow> np_float \<Rightarrow> np_float" where
  "np_mul (Num x) (Num y) = np_round (x * y)"
| "np_mul NaN b = NaN"
| "np_mul a NaN = NaN"
| "np_mul (Num x) b = (if x = 0 then NaN else np_inf ((0 < x) = (b = PosInf)))"
| "np_mul a (Num y) = (if y = 0 then NaN else np_inf ((0 < y) = (a = PosInf)))"
| "np_mul a b = np_inf (a = b)"

fun np_div :: "np_float \<Rightarrow> np_float \<Rightarrow> np_float" where
  "np_div (Num x) (Num y) =
     (if y = 0 then (if x = 0 then NaN else np_inf (0 < x)) else np_round (x / y))"
| "np_div NaN b = NaN"
| "np_div a NaN = NaN"
| "np_div (Num x) b = Num 0"
| "np_div a (Num y) = np_inf ((0 \<le> y) = (a = PosInf))"
| "np_div a b = NaN"



section \<open>Performance metrics\<close>

text \<open>
  \<^verbatim>\<open>metrics\<close> of \<^verbatim>\<open>backtest.py\<close> reads the \<^verbatim>\<open>pnl\<close> column of the ledger frame, one
  row per trade, each P&L a finite double.

  The reductions of a column (\<^verbatim>\<open>sum\<close>, \<^verbatim>\<open>mean\<close>, \<^verbatim>\<open>std\<close>, \<^verbatim>\<open>cumsum\<close>, \<^verbatim>\<open>cummax\<close>,
  \<^verbatim>\<open>min\<close>) are code of the pandas library, not of this program, and the order in
  which \<^verbatim>\<open>sum\<close> adds doubles depends on how pandas and NumPy were built. They are
  therefore parameters of \<open>metrics\<close>, and what is proved about \<open>metrics\<close> holds for
  every implementation of them. The arithmetic that \<^verbatim>\<open>metrics\<close> itself does on their
  results is float arithmetic.
\<close>

record pandas =
  lib_sum :: "real list \<Rightarrow> np_float"
  lib_mean :: "real list \<Rightarrow> np_float"
  lib_std :: "real list \<Rightarrow> np_float"
  lib_cumsum :: "real list \<Rightarrow> np_float list"
  lib_cummax :: "np_float list \<Rightarrow> np_float list"
  lib_min :: "np_float list \<Rightarrow> np_float"

record ledger_row =
  row_time :: timestamp
  row_exit_time :: "timestamp option"
  row_side :: string
  row_entry :: real
  row_exit :: "real option"
  row_exit_reason :: "string option"
  pnl :: real

record metrics_record =
  m_trades :: int
  m_pnl :: np_float
  m_sharpe :: np_float
  m_max_dd :: np_float
  m_hit :: np_float
  m_pf :: np_float

text \<open>
  \<^verbatim>\<open>fillna(0.0)\<close> leaves a column of finite doubles as it is. \<^verbatim>\<open>1e-9\<close> and
  \<^verbatim>\<open>np.sqrt(252)\<close> are the doubles nearest to \<open>10\<^sup>-\<^sup>9\<close> and to the square root of 252;
  \<^verbatim>\<open>wins / max(1, wins + losses)\<close> is Python's division of integers, the double
  nearest to the quotient.
\<close>

definition metrics :: "pandas \<Rightarrow> ledger_row list \<Rightarrow> metrics_record" where
  "metrics lib df_tr =
     (if df_tr = [] then
        \<lparr> m_trades = 0, m_pnl = Num 0, m_sharpe = Num 0, m_max_dd = Num 0,
          m_hit = Num 0, m_pf = Num 0 \<rparr>
      else
        let pnls = map pnl df_tr;
            pnl_curve = lib_cumsum lib pnls;
            ret = pnls;
            sharpe = np_mul
                       (np_div (lib_mean lib ret)
                          (np_add (lib_std lib ret) (Num (round64 (1 / 10 ^ 9)))))
                       (Num (round64 (sqrt 252)));
            peak = lib_cummax lib pnl_curve;
            dd = map2 np_sub pnl_curve peak;
            max_dd = lib_min lib dd;
            wins = int (length (filter (\<lambda>x. 0 < x) pnls));
            losses = int (length (filter (\<lambda>x. x < 0) pnls));
            pf = (if 0 < losses
                  then np_div (lib_sum lib (filter (\<lambda>x. 0 < x) pnls))
                         (np_abs (lib_sum lib (filter (\<lambda>x. x < 0) pnls)))
                  else PosInf)
        in \<lparr> m_trades = int (length df_tr), m_pnl = lib_sum lib pnls,
             m_sharpe = sharpe, m_max_dd = max_dd,
             m_hit = Num (round64 (real_of_int wins / real_of_int (max 1 (wins + losses)))),
             m_pf = pf \<rparr>)"









section \<open>Observing a run\<close>

text \<open>
  The states the loop over a day's bars passes through, one after each iteration that
  is executed (the last one is the state at the \<^verbatim>\<open>break\<close>, if there is one), and the
  stop-loss values of the day's trade along such a run.
\<close>

fun bars_trace ::
  "config \<Rightarrow> string \<Rightarrow> real \<Rightarrow> real \<Rightarrow> frame \<Rightarrow> sim_state \<Rightarrow> sim_state list" where
  "bars_trace cfg instrument long_trig short_trig [] st = []"
| "bars_trace cfg instrument long_trig short_trig ((t, row) # rest) st =
     (case bar_step cfg instrument long_trig short_trig t row st of
        Break st' \<Rightarrow> [st']
      | Continue st' \<Rightarrow> st' # bars_trace cfg instrument long_trig short_trig rest st')"

fun stop_values :: "sim_state list \<Rightarrow> real list" where
  "stop_values [] = []"
| "stop_values (s # ss) =
     (case trade s of None \<Rightarrow> stop_values ss | Some tr \<Rightarrow> sl tr # stop_values ss)"


text \<open>
  Invariants of the loop state, used in the proofs. \<open>state_ok\<close>: a trade is bound
  exactly when the day has been entered. \<open>open_ok\<close>: moreover the bound trade is still
  open. \<open>closed_trade\<close>: a trade carries an exit price, an exit time and one of the three
  exit reasons.
\<close>

definition state_ok :: "sim_state \<Rightarrow> bool" where
  "state_ok st = (if entered st then \<exists>tr. trade st = Some tr else trade st = None)"

definition open_ok :: "sim_state \<Rightarrow> bool" where
  "open_ok st = (if entered st then \<exists>tr. trade st = Some tr \<and> exit tr = None else trade st = None)"

definition closed_trade :: "trade \<Rightarrow> bool" where
  "closed_trade tr =
     (exit tr \<noteq> None \<and> exit_time tr \<noteq> None
      \<and> exit_reason tr \<in> {Some ''SL'', Some ''TP'', Some ''EOD''})"

text \<open>
  What one loop iteration may do to the stop of a bound trade, from the state \<open>s\<close>
  before the iteration to the state \<open>s'\<close> after it: side, entry and take-profit
  stay; the stop of a long does not fall and that of a short does not rise; and the stop
  changes only in the iteration in which the breakeven flag is set, to the maximum (long)
  or minimum (short) of the old stop and entry \<open>\<plusminus>\<close> lock-profit distance.
\<close>

definition tightened :: "config \<Rightarrow> string \<Rightarrow> sim_state \<Rightarrow> sim_state \<Rightarrow> bool" where
  "tightened cfg instrument s s' =
     (\<forall>tr tr'. trade s = Some tr \<and> trade s' = Some tr' \<longrightarrow>
        side tr' = side tr \<and> entry tr' = entry tr \<and> tp tr' = tp tr
        \<and> (if side tr = ''long'' then sl tr \<le> sl tr' else sl tr' \<le> sl tr)
        \<and> (sl tr' \<noteq> sl tr \<longrightarrow>
             \<not> moved_be s \<and> moved_be s'
             \<and> sl tr' =
                 (if side tr = ''long''
                  then max (sl tr) (fadd (entry tr) (pips_to_price (LOCK_PROFIT_PIPS cfg) instrument))
                  else min (sl tr) (fsub (entry tr) (pips_to_price (LOCK_PROFIT_PIPS cfg) instrument)))))"

section \<open>Example data\<close>

text \<open>
  Bars with prices that are doubles. \<open>example_series\<close> holds two days: on the first a
  bar before the session, the opening bar at 07:00, a breakout above the range at 07:30
  and a quiet last bar; on the second a breakout below the range and then a bar that
  spans both stop and target. \<open>example_frame\<close> is its in-session part.
\<close>

definition example_bar :: "real \<Rightarrow> real \<Rightarrow> real \<Rightarrow> real \<Rightarrow> bar" where
  "example_bar o' h l c = \<lparr> open_price = o', high = h, low = l, close = c \<rparr>"

definition example_series :: frame where
  "example_series =
     [(10800000000000, example_bar 1 (17 / 16) 1 (17 / 16)),
      (25200000000000, example_bar (17 / 16) (9 / 8) 1 (17 / 16)),
      (27000000000000, example_bar (9 / 8) (5 / 4) (9 / 8) (5 / 4)),
      (27300000000000, example_bar (5 / 4) (2561 / 2048) (2559 / 2048) (5 / 4)),
      (111600000000000, example_bar (17 / 16) (9 / 8) 1 (17 / 16)),
      (113400000000000, example_bar 1 1 (7 / 8) (7 / 8)),
      (113700000000000, example_bar 1 (3 / 2) (1 / 2) 1)]"

definition example_frame :: frame where
  "example_frame = tl example_series"

definition example_mask :: "bool list" where
  "example_mask = [True, False, False, True, False, False]"

definition example_day_rows :: frame where
  "example_day_rows =
     [(25200000000000, example_bar (17 / 16) (9 / 8) 1 (17 / 16)),
      (27000000000000, example_bar (9 / 8) (5 / 4) (9 / 8) (5 / 4)),
      (27300000000000, example_bar (5 / 4) (2561 / 2048) (2559 / 2048) (5 / 4))]"

definition long_rows :: frame where
  "long_rows =
     [(25200000000000, example_bar (17 / 16) (9 / 8) 1 (17 / 16)),
      (27000000000000, example_bar (9 / 8) (5 / 4) (9 / 8) (5 / 4)),
      (27300000000000, example_bar (5 / 4) (1281 / 1024) (2561 / 2048) (1281 / 1024)),
      (27600000000000, example_bar (1281 / 1024) (2561 / 2048) (10241 / 8192) (2561 / 2048))]"

definition short_rows :: frame where
  "short_rows =
     [(111600000000000, example_bar (17 / 16) (9 / 8) 1 (17 / 16)),
      (113400000000000, example_bar 1 1 (7 / 8) (7 / 8)),
      (113700000000000, example_bar 1 (3 / 2) (1 / 2) 1)]"

definition opening_bar :: "timestamp \<times> bar" where
  "opening_bar = (25200000000000, example_bar (17 / 16) (9 / 8) 1 (17 / 16))"

definition long_entry_bar :: "timestamp \<times> bar" where
  "long_entry_bar = (27000000000000, example_bar (9 / 8) (5 / 4) (9 / 8) (5 / 4))"

definition short_entry_bar :: "timestamp \<times> bar" where
  "short_entry_bar = (27000000000000, example_bar 1 1 (7 / 8) (7 / 8))"

definition wide_bar :: "timestamp \<times> bar" where
  "wide_bar = (27300000000000, example_bar 1 (3 / 2) (1 / 2) 1)"

text \<open>The loop state after the entry bar of a long and of a short.\<close>

definition long_open_trade :: trade where
  "long_open_trade =
     \<lparr> time = 27000000000000, side = ''long'', entry = 5 / 4,
       sl = 703237081813903 / 562949953421312, tp = 5634903853765965 / 4503599627370496,
       exit = None, exit_time = None, exit_reason = None \<rparr>"

definition long_open_state :: sim_state where
  "long_open_state =
     \<lparr> entered = True, moved_be = False, high_water = Some (5 / 4), low_water = None,
       trade = Some long_open_trade, trades = [] \<rparr>"

definition short_open_trade :: trade where
  "short_open_trade =
     \<lparr> time = 27000000000000, side = ''short'', entry = 7 / 8,
       sl = 7888505107302161 / 9007199254740992, tp = 7870490708792679 / 9007199254740992,
       exit = None, exit_time = None, exit_reason = None \<rparr>"

definition short_open_state :: sim_state where
  "short_open_state =
     \<lparr> entered = True, moved_be = False, high_water = None, low_water = Some (7 / 8),
       trade = Some short_open_trade, trades = [] \<rparr>"

section \<open>Properties of the cost model\<close>

lemma endswith_iff: "endswith s suf = (\<exists>base. s = base @ suf)"
  unfolding endswith_def
proof
  assume "length suf \<le> length s \<and> drop (length s - length suf) s = suf"
  then have "s = take (length s - length suf) s @ suf"
    by (metis append_take_drop_id)
  then show "\<exists>base. s = base @ suf" ..
next
  assume "\<exists>base. s = base @ suf"
  then show "length suf \<le> length s \<and> drop (length s - length suf) s = suf"
    by auto
qed

text \<open>
  Claim C9. \<open>pips_to_price\<close> multiplies the pip count by the double \<open>0.01\<close> exactly when
  the instrument identifier is some base followed by \<open>_JPY\<close> (the quote currency of the
  identifier is JPY), and by the double \<open>0.0001\<close> for every other identifier, recognised
  or not.
\<close>

theorem pips_to_price_pip_size:
  "pips_to_price pips instrument =
     (if \<exists>base. instrument = base @ ''_JPY'' then fmul pips (round64 (1 / 100))
      else fmul pips (round64 (1 / 10000)))"
  by (simp add: pips_to_price_def endswith_iff)

theorem pips_to_price_pip_size_witness:
  "pips_to_price 8 ''USD_JPY'' = fmul 8 (round64 (1 / 100))
   \<and> pips_to_price 8 ''EUR_USD'' = fmul 8 (round64 (1 / 10000))
   \<and> pips_to_price 8 ''???'' = fmul 8 (round64 (1 / 10000))"
proof -
  have j: "\<exists>base. ''USD_JPY'' = base @ ''_JPY''"
    by (rule exI [of _ "''USD''"]) simp
  have e: "\<not> (\<exists>base. ''EUR_USD'' = base @ ''_JPY'')"
    by (simp add: endswith_iff [symmetric] endswith_def)
  have u: "\<not> (\<exists>base. ''???'' = base @ ''_JPY'')"
    by (simp add: endswith_iff [symmetric] endswith_def)
  show ?thesis
    using pips_to_price_pip_size [of 8 "''USD_JPY''"] pips_to_price_pip_size [of 8 "''EUR_USD''"]
      pips_to_price_pip_size [of 8 "''???''"] j e u
    by simp
qed

text \<open>
  Claim C10. \<open>apply_costs\<close> adds spread and then slippage to the price when the side is
  the string \<open>long\<close>, and subtracts spread and then slippage for every other side, be
  it \<open>short\<close> or any other string.
\<close>

theorem apply_costs_side:
  "(sd = ''long'' \<longrightarrow>
      apply_costs cfg price sd instrument =
        fadd (fadd price (pips_to_price (SPREAD_PIPS cfg) instrument))
          (pips_to_price (SLIPPAGE_PIPS cfg) instrument))
   \<and> (sd \<noteq> ''long'' \<longrightarrow>
      apply_costs cfg price sd instrument =
        fsub (fsub price (pips_to_price (SPREAD_PIPS cfg) instrument))
          (pips_to_price (SLIPPAGE_PIPS cfg) instrument))"
  by (simp add: apply_costs_def Let_def)

theorem apply_costs_side_witness:
  "apply_costs default_config 1 ''long'' ''EUR_USD'' =
     fadd (fadd 1 (pips_to_price (SPREAD_PIPS default_config) ''EUR_USD''))
       (pips_to_price (SLIPPAGE_PIPS default_config) ''EUR_USD'')
   \<and> apply_costs default_config 1 ''short'' ''EUR_USD'' =
     fsub (fsub 1 (pips_to_price (SPREAD_PIPS default_config) ''EUR_USD''))
       (pips_to_price (SLIPPAGE_PIPS default_config) ''EUR_USD'')
   \<and> apply_costs default_config 1 ''buy'' ''EUR_USD'' =
     fsub (fsub 1 (pips_to_price (SPREAD_PIPS default_config) ''EUR_USD''))
       (pips_to_price (SLIPPAGE_PIPS default_config) ''EUR_USD'')"
  using apply_costs_side [of "''long''" default_config 1 "''EUR_USD''"]
    apply_costs_side [of "''short''" default_config 1 "''EUR_USD''"]
    apply_costs_side [of "''buy''" default_config 1 "''EUR_USD''"]
  by simp

text \<open>The default spread and slippage of a non-JPY instrument, as doubles.\<close>

lemma spread_default:
  "pips_to_price (SPREAD_PIPS default_config) ''EUR_USD'' =
     5902958103587057 / 73786976294838206464"
  by code_simp

lemma slip_default:
  "pips_to_price (SLIPPAGE_PIPS default_config) ''EUR_USD'' =
     5902958103587057 / 295147905179352825856"
  by code_simp

text \<open>
  Claim C6, as stated, fails: with the default spread and slippage, the raw price \<open>1.0\<close>
  costed as a long fill and then as a short fill comes back as \<open>1 - 2\<^sup>-\<^sup>5\<^sup>3\<close>, the double
  just below \<open>1.0\<close>, because each of the four additions and subtractions is rounded.
\<close>

theorem apply_costs_round_trip_counterexample:
  "apply_costs default_config (apply_costs default_config 1 ''long'' ''EUR_USD'')
     ''short'' ''EUR_USD'' = 9007199254740991 / 9007199254740992
   \<and> apply_costs default_config (apply_costs default_config 1 ''long'' ''EUR_USD'')
     ''short'' ''EUR_USD'' \<noteq> 1"
proof -
  have a1: "fadd 1 (5902958103587057 / 73786976294838206464) =
      2251979957670343 / 2251799813685248"
    by code_simp
  have a2: "fadd (2251979957670343 / 2251799813685248)
      (5902958103587057 / 295147905179352825856) = 4504049987333233 / 4503599627370496"
    by code_simp
  have b1: "fsub (4504049987333233 / 4503599627370496)
      (5902958103587057 / 73786976294838206464) = 4503689699363043 / 4503599627370496"
    by code_simp
  have b2: "fsub (4503689699363043 / 4503599627370496)
      (5902958103587057 / 295147905179352825856) = 9007199254740991 / 9007199254740992"
    by code_simp
  show ?thesis
    unfolding apply_costs_def Let_def spread_default slip_default
    by (simp add: a1 a2 b1 b2)
qed

text \<open>
  The error of one rounding: \<open>round64 x\<close> is the multiple of the spacing \<open>2\<^sup>e\<^sup>-\<^sup>5\<^sup>2\<close>
  nearest to \<open>x\<close>, where \<open>2\<^sup>e \<le> \<bar>x\<bar>\<close> unless \<open>e\<close> is the least exponent \<open>-1022\<close>.
\<close>

lemma pow2_pos: "0 < pow2 e"
  by (simp add: pow2_def)

lemma pow2_Suc: "pow2 (e + 1) = 2 * pow2 e"
proof (cases "0 \<le> e")
  case True
  then show ?thesis by (simp add: pow2_def nat_add_distrib)
next
  case False
  then have "nat (- e) = Suc (nat (- (e + 1)))" by simp
  with False show ?thesis by (simp add: pow2_def del: nat_diff_distrib')
qed

lemma pow2_shift: "pow2 (e - int k) = pow2 e / 2 ^ k"
proof (induction k)
  case 0
  then show ?case by simp
next
  case (Suc k)
  have "pow2 (e - int k) = 2 * pow2 (e - int (Suc k))"
    using pow2_Suc [of "e - int (Suc k)"] by (simp add: algebra_simps)
  with Suc show ?case by simp
qed

lemma scale_up_lower: "1 \<le> x \<Longrightarrow> pow2 (scale_up n x) \<le> x"
proof (induction n arbitrary: x)
  case 0
  then show ?case by (simp add: pow2_def)
next
  case (Suc n)
  show ?case
  proof (cases "2 \<le> x")
    case True
    then have "pow2 (scale_up n (x / 2)) \<le> x / 2" by (intro Suc.IH) simp
    with True show ?thesis by (simp add: pow2_Suc)
  next
    case False
    with Suc.prems show ?thesis by (simp add: pow2_def)
  qed
qed

lemma scale_down_lower:
  "0 < x \<Longrightarrow> x < 1 \<Longrightarrow> pow2 (scale_down n x) \<le> x \<or> scale_down n x = - int n"
proof (induction n arbitrary: x)
  case 0
  then show ?case by simp
next
  case (Suc n)
  show ?case
  proof (cases "2 * x < 1")
    case True
    with Suc.prems Suc.IH [of "2 * x"]
    have "pow2 (scale_down n (2 * x)) \<le> 2 * x \<or> scale_down n (2 * x) = - int n" by simp
    moreover have "pow2 (scale_down n (2 * x)) = 2 * pow2 (scale_down n (2 * x) - 1)"
      using pow2_Suc [of "scale_down n (2 * x) - 1"] by simp
    ultimately show ?thesis using Suc.prems by auto
  next
    case False
    have "scale_down n (2 * x) = 0" using False by (cases n) auto
    then have "scale_down (Suc n) x = - 1" using Suc.prems by simp
    moreover have "pow2 (- 1) = 1 / 2" by (simp add: pow2_def)
    ultimately show ?thesis using False by simp
  qed
qed

lemma binade_lower: "0 < x \<Longrightarrow> pow2 (binade x) \<le> x \<or> binade x = - 1022"
  unfolding binade_def using scale_up_lower [of x 1023] scale_down_lower [of x 1022]
  by (cases "x < 1") auto

lemma round_half_even_err: "\<bar>real_of_int (round_half_even y) - y\<bar> \<le> 1 / 2"
  unfolding round_half_even_def Let_def
  by (auto simp: abs_le_iff)

lemma round64_err: "\<bar>round64 x - x\<bar> \<le> \<bar>x\<bar> / 2 ^ 53 + 1 / 2 ^ 1075"
proof (cases "x = 0")
  case True
  then show ?thesis by (simp add: round64_def)
next
  case False
  define e where "e = binade \<bar>x\<bar>"
  define q where "q = pow2 (e - 52)"
  define n where "n = round_half_even (x / q)"
  have q: "0 < q" by (simp add: q_def pow2_pos)
  have r: "round64 x = real_of_int n * q"
    using False by (simp add: round64_def Let_def n_def q_def e_def)
  have "round64 x - x = q * (real_of_int n - x / q)"
    using q by (simp add: r algebra_simps)
  then have "\<bar>round64 x - x\<bar> = q * \<bar>real_of_int n - x / q\<bar>"
    using q by (simp add: abs_mult)
  also have "\<dots> \<le> q * (1 / 2)"
    using q round_half_even_err [of "x / q"] unfolding n_def
    by (intro mult_left_mono) simp_all
  also have "\<dots> = pow2 e / 2 ^ 53"
    using pow2_shift [of e 52] by (simp add: q_def)
  finally have b: "\<bar>round64 x - x\<bar> \<le> pow2 e / 2 ^ 53" .
  have eta: "0 \<le> (1::real) / 2 ^ 1075" by simp
  from False binade_lower [of "\<bar>x\<bar>"] consider "pow2 e \<le> \<bar>x\<bar>" | "e = - 1022"
    unfolding e_def by auto
  then show ?thesis
  proof cases
    case 1
    then have "pow2 e / 2 ^ 53 \<le> \<bar>x\<bar> / 2 ^ 53" by (simp add: divide_right_mono)
    with b eta show ?thesis by linarith
  next
    case 2
    have "(2::real) ^ 1075 = 2 ^ 1022 * 2 ^ 53"
      by (simp only: power_add [symmetric]) simp
    then have "pow2 e / 2 ^ 53 = 1 / 2 ^ 1075"
      unfolding 2 pow2_def by simp
    with b have "\<bar>round64 x - x\<bar> \<le> 1 / 2 ^ 1075" by simp
    moreover have "0 \<le> \<bar>x\<bar> / 2 ^ 53" by simp
    ultimately show ?thesis by linarith
  qed
qed

text \<open>Four roundings in a row, each of relative error \<open>2\<^sup>-\<^sup>5\<^sup>3\<close> at most.\<close>

lemma chain_bound:
  fixes eta B :: real
  assumes "0 \<le> eta" and "0 \<le> B"
    and "e1 \<le> B / 2 ^ 53 + eta"
    and "e2 \<le> (B + e1) / 2 ^ 53 + eta"
    and "e3 \<le> (B + e1 + e2) / 2 ^ 53 + eta"
    and "e4 \<le> (B + e1 + e2 + e3) / 2 ^ 53 + eta"
    and "0 \<le> e1" "0 \<le> e2" "0 \<le> e3" "0 \<le> e4"
  shows "e1 + e2 + e3 + e4 \<le> 5 * B / 2 ^ 53 + 5 * eta"
proof -
  define c where "c = B / 2 ^ 53 + eta"
  have c: "0 \<le> c" using assms(1,2) by (simp add: c_def)
  have w: "x / 2 ^ 53 \<le> x / 16" if "0 \<le> x" for x :: real
    using that by (simp add: field_simps)
  have d: "(B + x) / 2 ^ 53 + eta = c + x / 2 ^ 53" for x
    by (simp add: c_def add_divide_distrib)
  have 1: "e1 \<le> c" using assms(3) by (simp add: c_def)
  have 2: "e2 \<le> c + e1 / 16"
    using assms(4) w [of e1] assms(7) unfolding d by linarith
  have 3: "e3 \<le> c + (e1 + e2) / 16"
    using assms(5) w [of "e1 + e2"] assms(7,8) unfolding add.assoc d by linarith
  have 4: "e4 \<le> c + (e1 + e2 + e3) / 16"
    using assms(6) w [of "e1 + e2 + e3"] assms(7,8,9) unfolding add.assoc d by linarith
  have "e1 + e2 + e3 + e4 \<le> 5 * c"
    using 1 2 3 4 c by argo
  then show ?thesis by (simp add: c_def)
qed

lemma round_trip_err:
  fixes p a b :: real
  assumes R: "\<And>x. \<bar>R x - x\<bar> \<le> \<bar>x\<bar> / 2 ^ 53 + eta" and eta: "0 \<le> eta"
  shows "\<bar>R (R (R (R (p + a) + b) - a) - b) - p\<bar> \<le> 5 * (\<bar>p\<bar> + \<bar>a\<bar> + \<bar>b\<bar>) / 2 ^ 53 + 5 * eta"
proof -
  define B where "B = \<bar>p\<bar> + \<bar>a\<bar> + \<bar>b\<bar>"
  define x1 where "x1 = R (p + a)"
  define x2 where "x2 = R (x1 + b)"
  define x3 where "x3 = R (x2 - a)"
  define x4 where "x4 = R (x3 - b)"
  define e1 where "e1 = \<bar>x1 - (p + a)\<bar>"
  define e2 where "e2 = \<bar>x2 - (x1 + b)\<bar>"
  define e3 where "e3 = \<bar>x3 - (x2 - a)\<bar>"
  define e4 where "e4 = \<bar>x4 - (x3 - b)\<bar>"
  have B: "0 \<le> B" by (simp add: B_def)
  have m1: "\<bar>p + a\<bar> \<le> B" unfolding B_def by linarith
  have m2: "\<bar>x1 + b\<bar> \<le> B + e1" unfolding B_def e1_def by linarith
  have m3: "\<bar>x2 - a\<bar> \<le> B + e1 + e2" unfolding B_def e1_def e2_def by linarith
  have m4: "\<bar>x3 - b\<bar> \<le> B + e1 + e2 + e3" unfolding B_def e1_def e2_def e3_def by linarith
  have mono: "x / 2 ^ 53 + eta \<le> y / 2 ^ 53 + eta" if "x \<le> y" for x y :: real
    using that by (simp add: divide_right_mono)
  have b1: "e1 \<le> B / 2 ^ 53 + eta"
    unfolding e1_def x1_def using R [of "p + a"] mono [OF m1] by linarith
  have b2: "e2 \<le> (B + e1) / 2 ^ 53 + eta"
    unfolding e2_def x2_def using R [of "x1 + b"] mono [OF m2] by linarith
  have b3: "e3 \<le> (B + e1 + e2) / 2 ^ 53 + eta"
    unfolding e3_def x3_def using R [of "x2 - a"] mono [OF m3] by linarith
  have b4: "e4 \<le> (B + e1 + e2 + e3) / 2 ^ 53 + eta"
    unfolding e4_def x4_def using R [of "x3 - b"] mono [OF m4] by linarith
  have s: "e1 + e2 + e3 + e4 \<le> 5 * B / 2 ^ 53 + 5 * eta"
    by (rule chain_bound [OF eta B b1 b2 b3 b4]) (simp_all add: e1_def e2_def e3_def e4_def)
  have "\<bar>x4 - p\<bar> \<le> e1 + e2 + e3 + e4"
    unfolding e1_def e2_def e3_def e4_def by linarith
  with s show ?thesis
    unfolding x4_def x3_def x2_def x1_def B_def by linarith
qed

text \<open>
  Claim C6, amended. Applying the cost model with one side and then with the opposite
  side reproduces the raw price up to floating-point rounding, not always exactly: as
  long as price, spread and slippage are below the overflow range, the result differs
  from the raw price by at most \<open>5 \<cdot> 2\<^sup>-\<^sup>5\<^sup>3 \<cdot> (\<bar>p\<bar> + \<bar>spread\<bar> + \<bar>slippage\<bar>) + 5 \<cdot> 2\<^sup>-\<^sup>1\<^sup>0\<^sup>7\<^sup>5\<close>,
  a few units in the last place of the price.
\<close>

theorem apply_costs_round_trip_bound:
  assumes "s = pips_to_price (SPREAD_PIPS cfg) instrument"
    and "l = pips_to_price (SLIPPAGE_PIPS cfg) instrument"
    and "\<bar>p\<bar> + \<bar>s\<bar> + \<bar>l\<bar> \<le> 2 ^ 1023"
  shows "\<bar>apply_costs cfg (apply_costs cfg p ''long'' instrument) ''short'' instrument - p\<bar>
           \<le> 5 * (\<bar>p\<bar> + \<bar>s\<bar> + \<bar>l\<bar>) / 2 ^ 53 + 5 / 2 ^ 1075
       \<and> \<bar>apply_costs cfg (apply_costs cfg p ''short'' instrument) ''long'' instrument - p\<bar>
           \<le> 5 * (\<bar>p\<bar> + \<bar>s\<bar> + \<bar>l\<bar>) / 2 ^ 53 + 5 / 2 ^ 1075"
proof -
  define eta :: real where "eta = 1 / 2 ^ 1075"
  have eta: "0 \<le> eta" by (simp add: eta_def)
  have R: "\<bar>round64 x - x\<bar> \<le> \<bar>x\<bar> / 2 ^ 53 + eta" for x
    unfolding eta_def by (rule round64_err)
  have ls: "apply_costs cfg (apply_costs cfg p ''long'' instrument) ''short'' instrument =
      round64 (round64 (round64 (round64 (p + s) + l) - s) - l)"
    by (simp add: apply_costs_def Let_def fadd_def fsub_def assms(1,2))
  have sl: "apply_costs cfg (apply_costs cfg p ''short'' instrument) ''long'' instrument =
      round64 (round64 (round64 (round64 (p + (- s)) + (- l)) - (- s)) - (- l))"
    by (simp add: apply_costs_def Let_def fadd_def fsub_def assms(1,2))
  have five: "5 * eta = 5 / 2 ^ 1075" by (simp add: eta_def)
  show ?thesis
    unfolding ls sl
    using round_trip_err [of round64 eta p s l, OF R eta]
      round_trip_err [of round64 eta p "- s" "- l", OF R eta]
    unfolding five by simp
qed

text \<open>
  The raw price \<open>1.0\<close> of the counterexample, with the default costs: either round trip
  is within \<open>10\<^sup>-\<^sup>1\<^sup>5\<close> of it.
\<close>

theorem apply_costs_round_trip_bound_witness:
  "\<bar>apply_costs default_config (apply_costs default_config 1 ''long'' ''EUR_USD'') ''short''
       ''EUR_USD'' - 1\<bar> \<le> 1 / 10 ^ 15
   \<and> \<bar>apply_costs default_config (apply_costs default_config 1 ''short'' ''EUR_USD'') ''long''
       ''EUR_USD'' - 1\<bar> \<le> 1 / 10 ^ 15"
proof -
  have small: "\<bar>1\<bar> + \<bar>5902958103587057 / 73786976294838206464\<bar>
      + \<bar>5902958103587057 / 295147905179352825856\<bar> \<le> (2::real) ^ 1023"
    by simp
  have le: "5 * (\<bar>1\<bar> + \<bar>5902958103587057 / 73786976294838206464\<bar>
      + \<bar>5902958103587057 / 295147905179352825856\<bar>) / 2 ^ 53 + 5 / 2 ^ 1075 \<le> (1::real) / 10 ^ 15"
    by simp
  from apply_costs_round_trip_bound [OF spread_default [symmetric] slip_default [symmetric] small] le
  show ?thesis by linarith
qed

section \<open>Properties of the metrics\<close>







text \<open>
  Claim C8. On the empty ledger \<open>metrics\<close> returns the record with trade count \<open>0\<close> and
  \<open>0.0\<close> for P&L, Sharpe ratio, maximal drawdown, hit rate and profit factor; being a
  total function with no error value, it raises nothing.
\<close>

theorem metrics_empty:
  "metrics lib [] =
     \<lparr> m_trades = 0, m_pnl = Num 0, m_sharpe = Num 0, m_max_dd = Num 0, m_hit = Num 0,
       m_pf = Num 0 \<rparr>"
  by (simp add: metrics_def)

section \<open>Properties of the simulator: one iteration\<close>

lemma bars_loop_append:
  "bars_loop cfg i lt stg (xs @ ys) st =
     (case bars_loop cfg i lt stg xs st of
        Break s \<Rightarrow> Break s
      | Continue s \<Rightarrow> bars_loop cfg i lt stg ys s)"
  by (induction xs arbitrary: st) (auto split: flow.splits)

lemma breakeven_long_props:
  assumes "breakeven_long cfg i row st tr = (st1, tr1)"
  shows "sl tr \<le> sl tr1" and "tp tr1 = tp tr" and "side tr1 = side tr" and "entry tr1 = entry tr"
    and "time tr1 = time tr" and "exit tr1 = exit tr" and "trades st1 = trades st"
    and "entered st1 = entered st" and "moved_be st \<longrightarrow> moved_be st1"
    and "sl tr1 \<noteq> sl tr \<longrightarrow> \<not> moved_be st \<and> moved_be st1
           \<and> sl tr1 = max (sl tr) (fadd (entry tr) (pips_to_price (LOCK_PROFIT_PIPS cfg) i))"
    and "moved_be st1 \<noteq> moved_be st \<longrightarrow> \<not> moved_be st \<and> moved_be st1"
  using assms by (auto simp: breakeven_long_def Let_def split: if_splits)

lemma breakeven_short_props:
  assumes "breakeven_short cfg i row st tr = (st1, tr1)"
  shows "sl tr1 \<le> sl tr" and "tp tr1 = tp tr" and "side tr1 = side tr" and "entry tr1 = entry tr"
    and "time tr1 = time tr" and "exit tr1 = exit tr" and "trades st1 = trades st"
    and "entered st1 = entered st" and "moved_be st \<longrightarrow> moved_be st1"
    and "sl tr1 \<noteq> sl tr \<longrightarrow> \<not> moved_be st \<and> moved_be st1
           \<and> sl tr1 = min (sl tr) (fsub (entry tr) (pips_to_price (LOCK_PROFIT_PIPS cfg) i))"
    and "moved_be st1 \<noteq> moved_be st \<longrightarrow> \<not> moved_be st \<and> moved_be st1"
  using assms by (auto simp: breakeven_short_def Let_def split: if_splits)

lemma bar_step_open:
  assumes "entered st" and "trade st = Some tr"
  shows "bar_step cfg i lt stg t row st =
     (if side tr = ''long''
      then exit_long t row (fst (breakeven_long cfg i row st tr)) (snd (breakeven_long cfg i row st tr))
      else exit_short t row (fst (breakeven_short cfg i row st tr)) (snd (breakeven_short cfg i row st tr)))"
  using assms by (simp add: bar_step_def split: prod.splits)

text \<open>
  Claim C1. Take a day's loop that has run over the bars \<open>pre\<close> without leaving, and
  holds an open trade \<open>tr\<close>. On the next bar the stop is tested before the target: for
  a long, if the bar's low is at or below the stop (the stop before this bar's breakeven
  update, or the updated stop \<open>sl tr1\<close> that the source compares with) and the bar's high
  is at or above the take-profit, the loop breaks on this bar and appends the trade closed
  at the stop \<open>sl tr1\<close> with reason \<open>SL\<close>; mirrored for a short.
\<close>

theorem stop_loss_before_take_profit:
  assumes "bars_loop cfg instrument long_trig short_trig pre st0 = Continue st"
    and "entered st" and "trade st = Some tr"
    and "tr1 = snd (breakeven_long cfg instrument row st tr)"
    and "tr2 = snd (breakeven_short cfg instrument row st tr)"
  shows "(side tr = ''long'' \<and> (low row \<le> sl tr \<or> low row \<le> sl tr1) \<and> tp tr \<le> high row \<longrightarrow>
            (\<exists>st'. bars_loop cfg instrument long_trig short_trig (pre @ (t, row) # post) st0 = Break st'
               \<and> trades st' = trades st @
                   [tr1\<lparr>exit := Some (sl tr1), exit_time := Some t, exit_reason := Some ''SL''\<rparr>]))
       \<and> (side tr \<noteq> ''long'' \<and> (sl tr \<le> high row \<or> sl tr2 \<le> high row) \<and> low row \<le> tp tr \<longrightarrow>
            (\<exists>st'. bars_loop cfg instrument long_trig short_trig (pre @ (t, row) # post) st0 = Break st'
               \<and> trades st' = trades st @
                   [tr2\<lparr>exit := Some (sl tr2), exit_time := Some t, exit_reason := Some ''SL''\<rparr>]))"
proof -
  obtain s1 where L: "breakeven_long cfg instrument row st tr = (s1, tr1)"
    using assms(4) by (metis prod.collapse)
  obtain s2 where S: "breakeven_short cfg instrument row st tr = (s2, tr2)"
    using assms(5) by (metis prod.collapse)
  have loop: "bars_loop cfg instrument long_trig short_trig (pre @ (t, row) # post) st0 =
      (case bar_step cfg instrument long_trig short_trig t row st of
         Break s \<Rightarrow> Break s
       | Continue s \<Rightarrow> bars_loop cfg instrument long_trig short_trig post s)"
    by (simp add: bars_loop_append assms(1))
  have long: "\<exists>st'. bars_loop cfg instrument long_trig short_trig (pre @ (t, row) # post) st0 = Break st'
               \<and> trades st' = trades st @
                   [tr1\<lparr>exit := Some (sl tr1), exit_time := Some t, exit_reason := Some ''SL''\<rparr>]"
    if "side tr = ''long''" and "low row \<le> sl tr \<or> low row \<le> sl tr1"
  proof -
    have "low row \<le> sl tr1"
      using that(2) breakeven_long_props(1) [OF L] by linarith
    then show ?thesis
      unfolding loop bar_step_open [OF assms(2,3)]
      using that(1) L breakeven_long_props(7) [OF L]
      by (simp add: exit_long_def Let_def)
  qed
  have short: "\<exists>st'. bars_loop cfg instrument long_trig short_trig (pre @ (t, row) # post) st0 = Break st'
               \<and> trades st' = trades st @
                   [tr2\<lparr>exit := Some (sl tr2), exit_time := Some t, exit_reason := Some ''SL''\<rparr>]"
    if "side tr \<noteq> ''long''" and "sl tr \<le> high row \<or> sl tr2 \<le> high row"
  proof -
    have "sl tr2 \<le> high row"
      using that(2) breakeven_short_props(1) [OF S] by linarith
    then show ?thesis
      unfolding loop bar_step_open [OF assms(2,3)]
      using that(1) S breakeven_short_props(7) [OF S]
      by (simp add: exit_short_def Let_def)
  qed
  show ?thesis using long short by blast
qed

text \<open>The pip distances, triggers and price levels of the examples, as doubles.\<close>

lemma pips_default:
  "pips_to_price (BUFFER_PIPS default_config) ''EUR_USD'' = 7378697629483821 / 73786976294838206464"
  "pips_to_price (SL_PIPS default_config) ''EUR_USD'' = 7378697629483821 / 9223372036854775808"
  "pips_to_price (TP_PIPS default_config) ''EUR_USD'' = 2767011611056433 / 2305843009213693952"
  "pips_to_price (BE_TRIGGER_PIPS default_config) ''EUR_USD'' = 2767011611056433 / 4611686018427387904"
  "pips_to_price (LOCK_PROFIT_PIPS default_config) ''EUR_USD'' = 0"
  by code_simp+

lemma example_triggers:
  "long_trigger default_config ''EUR_USD'' [opening_bar] = 5066999940754545 / 4503599627370496"
  "short_trigger default_config ''EUR_USD'' [opening_bar] = 4503149267407759 / 4503599627370496"
  by code_simp+

lemma example_long_levels:
  "fsub (5 / 4) (7378697629483821 / 9223372036854775808) = 703237081813903 / 562949953421312"
  "fadd (5 / 4) (2767011611056433 / 2305843009213693952) = 5634903853765965 / 4503599627370496"
  "fadd (5 / 4) (2767011611056433 / 4611686018427387904) = 2816100846994771 / 2251799813685248"
  "fadd (5 / 4) 0 = 5 / 4"
  by code_simp+

lemma example_short_levels:
  "fadd (7 / 8) (7378697629483821 / 9223372036854775808) = 7888505107302161 / 9007199254740992"
  "fsub (7 / 8) (2767011611056433 / 2305843009213693952) = 7870490708792679 / 9007199254740992"
  "fsub (7 / 8) (2767011611056433 / 4611686018427387904) = 7875895028345523 / 9007199254740992"
  "fsub (7 / 8) 0 = 7 / 8"
  by code_simp+

lemmas example_eval =
  opening_bar_def long_entry_bar_def short_entry_bar_def wide_bar_def example_bar_def
  pips_default example_triggers example_long_levels example_short_levels
  bar_step_def breakeven_long_def breakeven_short_def exit_long_def exit_short_def
  init_state_def Let_def

lemma long_pre:
  "bars_loop default_config ''EUR_USD'' (5066999940754545 / 4503599627370496)
     (4503149267407759 / 4503599627370496) [opening_bar, long_entry_bar] (init_state []) =
   Continue long_open_state"
  by (simp add: example_eval long_open_state_def long_open_trade_def)

lemma short_pre:
  "bars_loop default_config ''EUR_USD'' (5066999940754545 / 4503599627370496)
     (4503149267407759 / 4503599627370496) [opening_bar, short_entry_bar] (init_state []) =
   Continue short_open_state"
  by (simp add: example_eval short_open_state_def short_open_trade_def)

lemma long_ratchet:
  "snd (breakeven_long default_config ''EUR_USD'' (snd wide_bar) long_open_state long_open_trade) =
     long_open_trade\<lparr>sl := 5 / 4\<rparr>"
  by (simp add: example_eval long_open_state_def long_open_trade_def)

lemma short_ratchet:
  "snd (breakeven_short default_config ''EUR_USD'' (snd wide_bar) short_open_state short_open_trade) =
     short_open_trade\<lparr>sl := 7 / 8\<rparr>"
  by (simp add: example_eval short_open_state_def short_open_trade_def)

text \<open>
  A long entered at \<open>1.25\<close> and a short entered at \<open>0.875\<close>, each followed by a bar
  from \<open>0.5\<close> to \<open>1.5\<close>: the stop has moved to the entry price on that bar, and both
  trades leave at it with reason \<open>SL\<close>.
\<close>

theorem stop_loss_before_take_profit_witness:
  "(\<exists>st'. bars_loop default_config ''EUR_USD'' (5066999940754545 / 4503599627370496)
       (4503149267407759 / 4503599627370496) ([opening_bar, long_entry_bar] @ wide_bar # [])
       (init_state []) = Break st'
     \<and> trades st' = [\<lparr> time = 27000000000000, side = ''long'', entry = 5 / 4, sl = 5 / 4,
          tp = 5634903853765965 / 4503599627370496, exit = Some (5 / 4),
          exit_time = Some 27300000000000, exit_reason = Some ''SL'' \<rparr>])
   \<and> (\<exists>st'. bars_loop default_config ''EUR_USD'' (5066999940754545 / 4503599627370496)
       (4503149267407759 / 4503599627370496) ([opening_bar, short_entry_bar] @ wide_bar # [])
       (init_state []) = Break st'
     \<and> trades st' = [\<lparr> time = 27000000000000, side = ''short'', entry = 7 / 8, sl = 7 / 8,
          tp = 7870490708792679 / 9007199254740992, exit = Some (7 / 8),
          exit_time = Some 27300000000000, exit_reason = Some ''SL'' \<rparr>])"
proof -
  have le: "entered long_open_state" "trade long_open_state = Some long_open_trade"
    by (simp_all add: long_open_state_def)
  have lh: "side long_open_trade = ''long''
      \<and> (low (snd wide_bar) \<le> sl long_open_trade \<or> low (snd wide_bar) \<le> sl (long_open_trade\<lparr>sl := 5 / 4\<rparr>))
      \<and> tp long_open_trade \<le> high (snd wide_bar)"
    by (simp add: long_open_trade_def wide_bar_def example_bar_def)
  have se: "entered short_open_state" "trade short_open_state = Some short_open_trade"
    by (simp_all add: short_open_state_def)
  have sh: "side short_open_trade \<noteq> ''long''
      \<and> (sl short_open_trade \<le> high (snd wide_bar) \<or> sl (short_open_trade\<lparr>sl := 7 / 8\<rparr>) \<le> high (snd wide_bar))
      \<and> low (snd wide_bar) \<le> tp short_open_trade"
    by (simp add: short_open_trade_def wide_bar_def example_bar_def)
  note long = stop_loss_before_take_profit [OF long_pre le long_ratchet [symmetric] refl,
      where t = "fst wide_bar" and post = "[]"]
  note short = stop_loss_before_take_profit [OF short_pre se refl short_ratchet [symmetric],
      where t = "fst wide_bar" and post = "[]"]
  from long lh have "\<exists>st'. bars_loop default_config ''EUR_USD'' (5066999940754545 / 4503599627370496)
       (4503149267407759 / 4503599627370496)
       ([opening_bar, long_entry_bar] @ (fst wide_bar, snd wide_bar) # []) (init_state []) = Break st'
     \<and> trades st' = trades long_open_state @
         [long_open_trade\<lparr>sl := 5 / 4, exit := Some (sl (long_open_trade\<lparr>sl := 5 / 4\<rparr>)),
            exit_time := Some (fst wide_bar), exit_reason := Some ''SL''\<rparr>]"
    by blast
  moreover from short sh have "\<exists>st'. bars_loop default_config ''EUR_USD'' (5066999940754545 / 4503599627370496)
       (4503149267407759 / 4503599627370496)
       ([opening_bar, short_entry_bar] @ (fst wide_bar, snd wide_bar) # []) (init_state []) = Break st'
     \<and> trades st' = trades short_open_state @
         [short_open_trade\<lparr>sl := 7 / 8, exit := Some (sl (short_open_trade\<lparr>sl := 7 / 8\<rparr>)),
            exit_time := Some (fst wide_bar), exit_reason := Some ''SL''\<rparr>]"
    by blast
  ultimately show ?thesis
    by (simp add: long_open_state_def long_open_trade_def short_open_state_def
        short_open_trade_def wide_bar_def)
qed

section \<open>Properties of the simulator: the stop along a run\<close>

lemma bar_step_waiting:
  assumes "\<not> entered st"
  shows "\<exists>st'. bar_step cfg i lt stg t row st = Continue st' \<and> trades st' = trades st
           \<and> moved_be st' = moved_be st
           \<and> (st' = st \<or> (entered st' \<and> (\<exists>tr'. trade st' = Some tr' \<and> time tr' = t \<and> exit tr' = None)))"
  using assms by (simp add: bar_step_def)

lemma bar_step_ok:
  assumes "state_ok st"
  shows "state_ok (flow_state (bar_step cfg i lt stg t row st))"
proof (cases "entered st")
  case False
  with bar_step_waiting [OF False, of cfg i lt stg t row] assms show ?thesis
    by (auto simp: flow_state_def state_ok_def)
next
  case True
  with assms obtain tr where tr: "trade st = Some tr"
    by (auto simp: state_ok_def)
  obtain s1 example_ledger where L: "breakeven_long cfg i row st tr = (s1, example_ledger)" by fastforce
  obtain s2 t2 where S: "breakeven_short cfg i row st tr = (s2, t2)" by fastforce
  show ?thesis
    unfolding bar_step_open [OF True tr] L S
    using breakeven_long_props(8) [OF L] breakeven_short_props(8) [OF S] True
    by (simp add: exit_long_def exit_short_def flow_state_def state_ok_def Let_def)
qed

lemma bar_step_moved_be:
  assumes "st' = flow_state (bar_step cfg i lt stg t row st)"
  shows "moved_be st \<longrightarrow> moved_be st'"
proof (cases "entered st")
  case False
  with bar_step_waiting [OF False, of cfg i lt stg t row] assms show ?thesis
    by (auto simp: flow_state_def)
next
  case True
  show ?thesis
  proof (cases "trade st")
    case None
    with True assms show ?thesis by (simp add: bar_step_def flow_state_def)
  next
    case (Some tr)
    obtain s1 example_ledger where L: "breakeven_long cfg i row st tr = (s1, example_ledger)" by fastforce
    obtain s2 t2 where S: "breakeven_short cfg i row st tr = (s2, t2)" by fastforce
    show ?thesis
      unfolding assms bar_step_open [OF True Some] L S
      using breakeven_long_props(9) [OF L] breakeven_short_props(9) [OF S]
      by (simp add: exit_long_def exit_short_def flow_state_def Let_def)
  qed
qed

lemma bar_step_tightened:
  assumes "state_ok st"
  shows "tightened cfg i st (flow_state (bar_step cfg i lt stg t row st))"
proof (cases "entered st")
  case False
  with assms have "trade st = None" by (simp add: state_ok_def)
  then show ?thesis by (simp add: tightened_def)
next
  case True
  with assms obtain tr where tr: "trade st = Some tr"
    by (auto simp: state_ok_def)
  obtain s1 example_ledger where L: "breakeven_long cfg i row st tr = (s1, example_ledger)" by fastforce
  obtain s2 t2 where S: "breakeven_short cfg i row st tr = (s2, t2)" by fastforce
  show ?thesis
  proof (cases "side tr = ''long''")
    case long: True
    have m: "moved_be (flow_state (exit_long t row s1 example_ledger)) = moved_be s1"
      and tr': "\<exists>x. trade (flow_state (exit_long t row s1 example_ledger)) = Some x \<and> side x = side example_ledger
         \<and> entry x = entry example_ledger \<and> tp x = tp example_ledger \<and> sl x = sl example_ledger"
      by (simp_all add: exit_long_def flow_state_def Let_def)
    show ?thesis
      unfolding bar_step_open [OF True tr] tightened_def
      using long L tr m tr' breakeven_long_props [OF L]
      by (auto simp: )
  next
    case short: False
    have m: "moved_be (flow_state (exit_short t row s2 t2)) = moved_be s2"
      and tr': "\<exists>x. trade (flow_state (exit_short t row s2 t2)) = Some x \<and> side x = side t2
         \<and> entry x = entry t2 \<and> tp x = tp t2 \<and> sl x = sl t2"
      by (simp_all add: exit_short_def flow_state_def Let_def)
    show ?thesis
      unfolding bar_step_open [OF True tr] tightened_def
      using short S tr m tr' breakeven_short_props [OF S]
      by (auto simp: )
  qed
qed

lemma bars_trace_Cons:
  "bars_trace cfg i lt stg ((t, row) # rest) st =
     flow_state (bar_step cfg i lt stg t row st) #
       (case bar_step cfg i lt stg t row st of
          Break s \<Rightarrow> []
        | Continue s \<Rightarrow> bars_trace cfg i lt stg rest s)"
  by (simp add: flow_state_def split: flow.splits)

lemma bars_trace_tightened:
  assumes "state_ok st"
  shows "\<forall>(s, s')\<in>set (zip (st # bars_trace cfg i lt stg rows st) (bars_trace cfg i lt stg rows st)).
           tightened cfg i s s'"
  using assms
proof (induction rows arbitrary: st)
  case Nil
  then show ?case by simp
next
  case (Cons r rows)
  obtain t row where r: "r = (t, row)" by (cases r)
  let ?s = "flow_state (bar_step cfg i lt stg t row st)"
  have ok: "state_ok ?s" using Cons.prems by (rule bar_step_ok)
  have hd: "tightened cfg i st ?s" using Cons.prems by (rule bar_step_tightened)
  show ?case
  proof (cases "bar_step cfg i lt stg t row st")
    case (Break s)
    then have "bars_trace cfg i lt stg (r # rows) st = [?s]"
      by (simp add: r flow_state_def)
    then show ?thesis using hd by simp
  next
    case (Continue s)
    then have tr: "bars_trace cfg i lt stg (r # rows) st = ?s # bars_trace cfg i lt stg rows ?s"
      by (simp add: r flow_state_def)
    show ?thesis
      unfolding tr using hd Cons.IH [OF ok] by simp
  qed
qed

lemma bars_trace_flips:
  "length (filter (\<lambda>(s, s'). moved_be s \<noteq> moved_be s')
     (zip (st # bars_trace cfg i lt stg rows st) (bars_trace cfg i lt stg rows st)))
   \<le> (if moved_be st then 0 else 1)"
proof (induction rows arbitrary: st)
  case Nil
  then show ?case by simp
next
  case (Cons r rows)
  obtain t row where r: "r = (t, row)" by (cases r)
  let ?s = "flow_state (bar_step cfg i lt stg t row st)"
  have mono: "moved_be st \<longrightarrow> moved_be ?s" by (rule bar_step_moved_be) simp
  show ?case
  proof (cases "bar_step cfg i lt stg t row st")
    case (Break s)
    then have "bars_trace cfg i lt stg (r # rows) st = [?s]"
      by (simp add: r flow_state_def)
    then show ?thesis using mono by simp
  next
    case (Continue s)
    then have tr: "bars_trace cfg i lt stg (r # rows) st = ?s # bars_trace cfg i lt stg rows ?s"
      by (simp add: r flow_state_def)
    show ?thesis
      unfolding tr using mono Cons.IH [of ?s] by (simp split: if_splits)
  qed
qed

lemma bar_step_keeps_trade:
  assumes "state_ok st" and "trade st = Some tr"
  shows "\<exists>tr'. trade (flow_state (bar_step cfg i lt stg t row st)) = Some tr'"
proof -
  have en: "entered st" using assms by (auto simp: state_ok_def split: if_splits)
  have "state_ok (flow_state (bar_step cfg i lt stg t row st))"
    using assms(1) by (rule bar_step_ok)
  moreover have "entered (flow_state (bar_step cfg i lt stg t row st))"
  proof -
    obtain s1 example_ledger where L: "breakeven_long cfg i row st tr = (s1, example_ledger)" by fastforce
    obtain s2 t2 where S: "breakeven_short cfg i row st tr = (s2, t2)" by fastforce
    show ?thesis
      unfolding bar_step_open [OF en assms(2)] L S
      using breakeven_long_props(8) [OF L] breakeven_short_props(8) [OF S] en
      by (simp add: exit_long_def exit_short_def flow_state_def Let_def)
  qed
  ultimately show ?thesis by (simp add: state_ok_def)
qed

lemma bars_trace_long:
  assumes "state_ok st" and "trade st = Some tr" and "side tr = ''long''"
  shows "sorted (sl tr # stop_values (bars_trace cfg i lt stg rows st))"
  using assms
proof (induction rows arbitrary: st tr)
  case Nil
  then show ?case by simp
next
  case (Cons r rows)
  obtain t row where r: "r = (t, row)" by (cases r)
  let ?s = "flow_state (bar_step cfg i lt stg t row st)"
  have ok: "state_ok ?s" using Cons.prems(1) by (rule bar_step_ok)
  obtain tr' where tr': "trade ?s = Some tr'"
    using bar_step_keeps_trade [OF Cons.prems(1,2)] by blast
  have "tightened cfg i st ?s" using Cons.prems(1) by (rule bar_step_tightened)
  with tr' Cons.prems have side: "side tr' = ''long''" and le: "sl tr \<le> sl tr'"
    by (auto simp: tightened_def)
  show ?case
  proof (cases "bar_step cfg i lt stg t row st")
    case (Break s)
    then have "bars_trace cfg i lt stg (r # rows) st = [?s]"
      by (simp add: r flow_state_def)
    then show ?thesis using tr' le by simp
  next
    case (Continue s)
    then have tr: "bars_trace cfg i lt stg (r # rows) st = ?s # bars_trace cfg i lt stg rows ?s"
      by (simp add: r flow_state_def)
    have "sorted (sl tr' # stop_values (bars_trace cfg i lt stg rows ?s))"
      using ok tr' side by (rule Cons.IH)
    then show ?thesis
      unfolding tr using tr' le by auto
  qed
qed

lemma bars_trace_short:
  assumes "state_ok st" and "trade st = Some tr" and "side tr \<noteq> ''long''"
  shows "sorted (rev (stop_values (bars_trace cfg i lt stg rows st)) @ [sl tr])"
  using assms
proof (induction rows arbitrary: st tr)
  case Nil
  then show ?case by simp
next
  case (Cons r rows)
  obtain t row where r: "r = (t, row)" by (cases r)
  let ?s = "flow_state (bar_step cfg i lt stg t row st)"
  have ok: "state_ok ?s" using Cons.prems(1) by (rule bar_step_ok)
  obtain tr' where tr': "trade ?s = Some tr'"
    using bar_step_keeps_trade [OF Cons.prems(1,2)] by blast
  have "tightened cfg i st ?s" using Cons.prems(1) by (rule bar_step_tightened)
  with tr' Cons.prems have side: "side tr' \<noteq> ''long''" and le: "sl tr' \<le> sl tr"
    by (auto simp: tightened_def)
  show ?case
  proof (cases "bar_step cfg i lt stg t row st")
    case (Break s)
    then have "bars_trace cfg i lt stg (r # rows) st = [?s]"
      by (simp add: r flow_state_def)
    then show ?thesis using tr' le by simp
  next
    case (Continue s)
    then have tr: "bars_trace cfg i lt stg (r # rows) st = ?s # bars_trace cfg i lt stg rows ?s"
      by (simp add: r flow_state_def)
    have "sorted (rev (stop_values (bars_trace cfg i lt stg rows ?s)) @ [sl tr'])"
      using ok tr' side by (rule Cons.IH)
    then show ?thesis
      unfolding tr using tr' le by (auto simp: sorted_append)
  qed
qed

lemma bars_trace_waiting:
  assumes "state_ok st" and "trade st = None"
  shows "((\<forall>s\<in>set (bars_trace cfg i lt stg rows st). \<forall>tr. trade s = Some tr \<longrightarrow> side tr = ''long'')
            \<longrightarrow> sorted (stop_values (bars_trace cfg i lt stg rows st)))
       \<and> ((\<forall>s\<in>set (bars_trace cfg i lt stg rows st). \<forall>tr. trade s = Some tr \<longrightarrow> side tr \<noteq> ''long'')
            \<longrightarrow> sorted (rev (stop_values (bars_trace cfg i lt stg rows st))))"
  using assms
proof (induction rows arbitrary: st)
  case Nil
  then show ?case by simp
next
  case (Cons r rows)
  obtain t row where r: "r = (t, row)" by (cases r)
  let ?s = "flow_state (bar_step cfg i lt stg t row st)"
  have ok: "state_ok ?s" using Cons.prems(1) by (rule bar_step_ok)
  have en: "\<not> entered st" using Cons.prems by (auto simp: state_ok_def split: if_splits)
  obtain s where Continue: "bar_step cfg i lt stg t row st = Continue s"
    using bar_step_waiting [OF en] by blast
  then have tr: "bars_trace cfg i lt stg (r # rows) st = ?s # bars_trace cfg i lt stg rows ?s"
    by (simp add: r flow_state_def)
  show ?case
  proof (cases "trade ?s")
    case None
    then show ?thesis
      unfolding tr using Cons.IH [OF ok None] by simp
  next
    case (Some tr')
    have "sorted (sl tr' # stop_values (bars_trace cfg i lt stg rows ?s))" if "side tr' = ''long''"
      using ok Some that by (rule bars_trace_long)
    moreover have "sorted (rev (stop_values (bars_trace cfg i lt stg rows ?s)) @ [sl tr'])"
      if "side tr' \<noteq> ''long''"
      using ok Some that by (rule bars_trace_short)
    ultimately show ?thesis
      unfolding tr using Some by auto
  qed
qed

lemma state_ok_init: "state_ok (init_state trs)"
  by (simp add: state_ok_def init_state_def)

text \<open>The trace is the run of the loop: the loop ends in the last state of the trace.\<close>

lemma bars_loop_last:
  "flow_state (bars_loop cfg i lt stg rows st) = last (st # bars_trace cfg i lt stg rows st)"
proof (induction rows arbitrary: st)
  case Nil
  then show ?case by (simp add: flow_state_def)
next
  case (Cons r rows)
  obtain t row where r: "r = (t, row)" by (cases r)
  show ?case
  proof (cases "bar_step cfg i lt stg t row st")
    case (Break s)
    then show ?thesis by (simp add: r flow_state_def)
  next
    case (Continue s)
    then show ?thesis using Cons.IH [of s] by (simp add: r)
  qed
qed

text \<open>
  Claim C2. Along the states \<open>sts\<close> that a day's loop passes through, started as the
  source starts it: the stop values of a long trade are non-decreasing and those of a
  short trade non-increasing; the breakeven flag changes in at most one iteration; and
  every iteration is \<open>tightened\<close>, so the stop is replaced only in that iteration, by the
  maximum (long) or minimum (short) of the old stop and the breakeven level.
\<close>

theorem stop_never_loosens:
  "let sts = bars_trace cfg instrument long_trig short_trig rows (init_state trs);
       steps = zip (init_state trs # sts) sts
   in ((\<forall>s\<in>set sts. \<forall>tr. trade s = Some tr \<longrightarrow> side tr = ''long'') \<longrightarrow> sorted (stop_values sts))
    \<and> ((\<forall>s\<in>set sts. \<forall>tr. trade s = Some tr \<longrightarrow> side tr \<noteq> ''long'') \<longrightarrow>
          sorted (rev (stop_values sts)))
    \<and> length (filter (\<lambda>(s, s'). moved_be s \<noteq> moved_be s') steps) \<le> 1
    \<and> (\<forall>(s, s')\<in>set steps. tightened cfg instrument s s')"
proof -
  have i: "trade (init_state trs) = None" by (simp add: init_state_def)
  have f: "length (filter (\<lambda>(s, s'). moved_be s \<noteq> moved_be s')
     (zip (init_state trs # bars_trace cfg instrument long_trig short_trig rows (init_state trs))
        (bars_trace cfg instrument long_trig short_trig rows (init_state trs)))) \<le> 1"
    using bars_trace_flips [of "init_state trs" cfg instrument long_trig short_trig rows]
    by (simp split: if_splits)
  show ?thesis
    unfolding Let_def
    using bars_trace_waiting [OF state_ok_init i, of cfg instrument long_trig short_trig rows]
      f bars_trace_tightened [OF state_ok_init, of trs cfg instrument long_trig short_trig rows]
    by blast
qed

text \<open>
  A long whose stop moves from \<open>1.2492\<close> to the entry \<open>1.25\<close> when the high reaches
  the breakeven trigger and stays there on the pullback, and a short whose stop moves
  down from \<open>0.8758\<close> to the entry \<open>0.875\<close>.
\<close>

lemma long_trace_sides:
  "list_all (\<lambda>s. case trade s of None \<Rightarrow> True | Some tr \<Rightarrow> side tr = ''long'')
     (bars_trace default_config ''EUR_USD'' (5066999940754545 / 4503599627370496)
        (4503149267407759 / 4503599627370496) long_rows (init_state []))"
  by code_simp

lemma long_trace_stops:
  "stop_values (bars_trace default_config ''EUR_USD'' (5066999940754545 / 4503599627370496)
        (4503149267407759 / 4503599627370496) long_rows (init_state [])) =
   [703237081813903 / 562949953421312, 5 / 4, 5 / 4]"
  by code_simp

lemma short_trace_sides:
  "list_all (\<lambda>s. case trade s of None \<Rightarrow> True | Some tr \<Rightarrow> side tr \<noteq> ''long'')
     (bars_trace default_config ''EUR_USD'' (5066999940754545 / 4503599627370496)
        (4503149267407759 / 4503599627370496) short_rows (init_state []))"
  by code_simp

lemma short_trace_stops:
  "stop_values (bars_trace default_config ''EUR_USD'' (5066999940754545 / 4503599627370496)
        (4503149267407759 / 4503599627370496) short_rows (init_state [])) =
   [7888505107302161 / 9007199254740992, 7 / 8]"
  by code_simp

theorem stop_never_loosens_witness:
  "sorted (stop_values (bars_trace default_config ''EUR_USD'' (5066999940754545 / 4503599627370496)
        (4503149267407759 / 4503599627370496) long_rows (init_state [])))
   \<and> stop_values (bars_trace default_config ''EUR_USD'' (5066999940754545 / 4503599627370496)
        (4503149267407759 / 4503599627370496) long_rows (init_state [])) =
      [703237081813903 / 562949953421312, 5 / 4, 5 / 4]
   \<and> sorted (rev (stop_values (bars_trace default_config ''EUR_USD'' (5066999940754545 / 4503599627370496)
        (4503149267407759 / 4503599627370496) short_rows (init_state []))))
   \<and> stop_values (bars_trace default_config ''EUR_USD'' (5066999940754545 / 4503599627370496)
        (4503149267407759 / 4503599627370496) short_rows (init_state [])) =
      [7888505107302161 / 9007199254740992, 7 / 8]"
proof -
  have l: "\<forall>s\<in>set (bars_trace default_config ''EUR_USD'' (5066999940754545 / 4503599627370496)
        (4503149267407759 / 4503599627370496) long_rows (init_state [])).
      \<forall>tr. trade s = Some tr \<longrightarrow> side tr = ''long''"
    using long_trace_sides unfolding list_all_iff by (auto split: option.splits)
  have s: "\<forall>s\<in>set (bars_trace default_config ''EUR_USD'' (5066999940754545 / 4503599627370496)
        (4503149267407759 / 4503599627370496) short_rows (init_state [])).
      \<forall>tr. trade s = Some tr \<longrightarrow> side tr \<noteq> ''long''"
    using short_trace_sides unfolding list_all_iff by (auto split: option.splits)
  show ?thesis
    using stop_never_loosens [of default_config "''EUR_USD''" "5066999940754545 / 4503599627370496"
        "4503149267407759 / 4503599627370496" long_rows "[]"]
      stop_never_loosens [of default_config "''EUR_USD''" "5066999940754545 / 4503599627370496"
        "4503149267407759 / 4503599627370496" short_rows "[]"] l s
    unfolding Let_def long_trace_stops short_trace_stops by blast
qed

section \<open>Properties of the simulator: the ledger\<close>

text \<open>On an index with pairwise different labels, label lookup returns the flags as stored.\<close>

lemma loc_distinct:
  assumes "distinct index" and "length flags = length index"
  shows "loc index flags index = flags"
proof -
  have "map (\<lambda>t. case map_of (zip index flags) t of Some b \<Rightarrow> b | None \<Rightarrow> False) index = flags"
  proof (rule nth_equalityI)
    show "length (map (\<lambda>t. case map_of (zip index flags) t of Some b \<Rightarrow> b | None \<Rightarrow> False) index)
        = length flags"
      using assms(2) by simp
  next
    fix i
    assume "i < length (map (\<lambda>t. case map_of (zip index flags) t of Some b \<Rightarrow> b | None \<Rightarrow> False) index)"
    then have i: "i < length index" by simp
    with assms have "map_of (zip index flags) (index ! i) = Some (flags ! i)"
      by (simp add: map_of_zip_nth)
    with i show "map (\<lambda>t. case map_of (zip index flags) t of Some b \<Rightarrow> b | None \<Rightarrow> False) index ! i
        = flags ! i"
      by simp
  qed
  then show ?thesis by (simp add: loc_def)
qed

lemma select_map: "select xs (map P xs) = filter P xs"
  unfolding select_def by (induction xs) auto

lemma day_frame_filter:
  "day_frame df (map (\<lambda>r. session_day_key (fst r)) df) day =
     filter (\<lambda>r. session_day_key (fst r) = day) df"
proof -
  have "map (\<lambda>k. k = day) (map (\<lambda>r. session_day_key (fst r)) df) =
      map (\<lambda>r. session_day_key (fst r) = day) df"
    by simp
  then show ?thesis
    unfolding day_frame_def by (simp only: select_map)
qed

lemma open_ok_init: "open_ok (init_state trs)"
  by (simp add: open_ok_def init_state_def)

lemma bar_step_summary:
  assumes "open_ok st"
  shows "case bar_step cfg i lt stg t row st of
           Continue s \<Rightarrow>
             open_ok s \<and> trades s = trades st
             \<and> (\<forall>tr. trade s = Some tr \<longrightarrow>
                  time tr = t \<or> (\<exists>tr0. trade st = Some tr0 \<and> time tr0 = time tr))
         | Break s \<Rightarrow>
             \<exists>tr tr0. trade st = Some tr0 \<and> time tr0 = time tr \<and> trade s = Some tr \<and> entered s
               \<and> trades s = trades st @ [tr] \<and> exit tr \<noteq> None \<and> exit_time tr = Some t
               \<and> exit_reason tr \<in> {Some ''SL'', Some ''TP''}"
proof (cases "entered st")
  case False
  with assms have "trade st = None" by (simp add: open_ok_def)
  with False show ?thesis
    by (simp add: bar_step_def open_ok_def)
next
  case True
  with assms obtain tr where tr: "trade st = Some tr" and ex: "exit tr = None"
    by (auto simp: open_ok_def)
  obtain s1 example_ledger where L: "breakeven_long cfg i row st tr = (s1, example_ledger)" by fastforce
  obtain s2 t2 where S: "breakeven_short cfg i row st tr = (s2, t2)" by fastforce
  show ?thesis
  proof (cases "side tr = ''long''")
    case long: True
    show ?thesis
      unfolding bar_step_open [OF True tr]
      using long L tr ex True breakeven_long_props(5,6,7,8) [OF L]
      by (simp add: exit_long_def open_ok_def Let_def)
  next
    case short: False
    show ?thesis
      unfolding bar_step_open [OF True tr]
      using short S tr ex True breakeven_short_props(5,6,7,8) [OF S]
      by (simp add: exit_short_def open_ok_def Let_def)
  qed
qed

lemma bars_loop_summary:
  assumes "open_ok st"
  shows "case bars_loop cfg i lt stg rows st of
           Continue s \<Rightarrow>
             open_ok s \<and> trades s = trades st
             \<and> (\<forall>tr. trade s = Some tr \<longrightarrow>
                  time tr \<in> fst ` set rows \<or> (\<exists>tr0. trade st = Some tr0 \<and> time tr0 = time tr))
         | Break s \<Rightarrow>
             \<exists>tr. trade s = Some tr \<and> entered s \<and> trades s = trades st @ [tr]
               \<and> exit tr \<noteq> None \<and> exit_time tr \<noteq> None
               \<and> exit_reason tr \<in> {Some ''SL'', Some ''TP''}
               \<and> (time tr \<in> fst ` set rows \<or> (\<exists>tr0. trade st = Some tr0 \<and> time tr0 = time tr))"
  using assms
proof (induction rows arbitrary: st)
  case Nil
  then show ?case by simp
next
  case (Cons r rows)
  obtain t row where r: "r = (t, row)" by (cases r)
  note step = bar_step_summary [OF Cons.prems, where cfg = cfg and i = i and lt = lt and stg = stg and t = t and row = row]
  show ?case
  proof (cases "bar_step cfg i lt stg t row st")
    case (Break s)
    with step show ?thesis by (auto simp: r)
  next
    case (Continue s)
    with step have ok: "open_ok s" and trs: "trades s = trades st"
      and org: "\<forall>tr. trade s = Some tr \<longrightarrow>
                  time tr = t \<or> (\<exists>tr0. trade st = Some tr0 \<and> time tr0 = time tr)"
      by simp_all
    note IH = Cons.IH [OF ok]
    have org1: "time tr \<in> fst ` set (r # rows) \<or> (\<exists>tr0. trade st = Some tr0 \<and> time tr0 = time tr)"
      if "time tr \<in> fst ` set rows \<or> (\<exists>tr0. trade s = Some tr0 \<and> time tr0 = time tr)" for tr
    proof -
      from that consider "time tr \<in> fst ` set rows"
        | tr0 where "trade s = Some tr0" "time tr0 = time tr"
        by blast
      then show ?thesis
      proof cases
        case 1
        then show ?thesis by simp
      next
        case 2
        with org have "time tr0 = t \<or> (\<exists>tr1. trade st = Some tr1 \<and> time tr1 = time tr0)"
          by blast
        with 2(2) show ?thesis by (auto simp: r)
      qed
    qed
    show ?thesis
    proof (cases "bars_loop cfg i lt stg rows s")
      case c: (Continue s')
      with IH have ok': "open_ok s'" and trs': "trades s' = trades s"
        and o: "\<forall>tr. trade s' = Some tr \<longrightarrow>
           time tr \<in> fst ` set rows \<or> (\<exists>tr0. trade s = Some tr0 \<and> time tr0 = time tr)"
        by simp_all
      have "\<forall>tr. trade s' = Some tr \<longrightarrow>
              time tr \<in> fst ` set (r # rows) \<or> (\<exists>tr0. trade st = Some tr0 \<and> time tr0 = time tr)"
      proof (intro allI impI)
        fix tr
        assume "trade s' = Some tr"
        with o have "time tr \<in> fst ` set rows \<or> (\<exists>tr0. trade s = Some tr0 \<and> time tr0 = time tr)"
          by blast
        then show "time tr \<in> fst ` set (r # rows) \<or> (\<exists>tr0. trade st = Some tr0 \<and> time tr0 = time tr)"
          by (rule org1)
      qed
      with ok' trs' trs have "open_ok s' \<and> trades s' = trades st
         \<and> (\<forall>tr. trade s' = Some tr \<longrightarrow>
              time tr \<in> fst ` set (r # rows) \<or> (\<exists>tr0. trade st = Some tr0 \<and> time tr0 = time tr))"
        by simp
      then show ?thesis
        using Continue c by (simp add: r)
    next
      case b: (Break s')
      with IH obtain tr where tr: "trade s' = Some tr" "entered s'" "trades s' = trades s @ [tr]"
        "exit tr \<noteq> None" "exit_time tr \<noteq> None" "exit_reason tr \<in> {Some ''SL'', Some ''TP''}"
        "time tr \<in> fst ` set rows \<or> (\<exists>tr0. trade s = Some tr0 \<and> time tr0 = time tr)"
        by auto
      from org1 [OF tr(7)] tr(1-6) trs
      have "\<exists>tr. trade s' = Some tr \<and> entered s' \<and> trades s' = trades st @ [tr]
               \<and> exit tr \<noteq> None \<and> exit_time tr \<noteq> None
               \<and> exit_reason tr \<in> {Some ''SL'', Some ''TP''}
               \<and> (time tr \<in> fst ` set (r # rows) \<or> (\<exists>tr0. trade st = Some tr0 \<and> time tr0 = time tr))"
        by auto
      then show ?thesis
        using Continue b by (simp add: r)
    qed
  qed
qed

lemma day_body_cases:
  "day_body cfg i df fm keys day trs = trs
   \<or> (\<exists>tr. day_body cfg i df fm keys day trs = trs @ [tr] \<and> closed_trade tr
         \<and> time tr \<in> fst ` set (day_frame df keys day))"
proof -
  let ?day_df = "day_frame df keys day"
  let ?fw = "select ?day_df (loc (map fst df) fm (map fst ?day_df))"
  let ?loop = "bars_loop cfg i (long_trigger cfg i ?fw) (short_trigger cfg i ?fw) ?day_df (init_state trs)"
  note sum = bars_loop_summary [OF open_ok_init, where cfg = cfg and i = i
      and lt = "long_trigger cfg i ?fw" and stg = "short_trigger cfg i ?fw" and rows = ?day_df
      and trs1 = trs]
  have i: "trade (init_state trs) = None" "trades (init_state trs) = trs"
    by (simp_all add: init_state_def)
  show ?thesis
  proof (cases "?day_df = [] \<or> ?fw = []")
    case True
    then show ?thesis by (auto simp: day_body_def Let_def)
  next
    case False
    then have body: "day_body cfg i df fm keys day trs = trades (eod_close ?day_df (flow_state ?loop))"
      by (simp add: day_body_def Let_def)
    show ?thesis
    proof (cases ?loop)
      case (Break s)
      with sum i obtain tr where "trade s = Some tr" "trades s = trs @ [tr]" "exit tr \<noteq> None"
        "exit_time tr \<noteq> None" "exit_reason tr \<in> {Some ''SL'', Some ''TP''}"
        "time tr \<in> fst ` set ?day_df"
        by auto
      then show ?thesis
        unfolding body Break
        by (auto simp: flow_state_def eod_close_def closed_trade_def)
    next
      case (Continue s)
      with sum i have ok: "open_ok s" and trs: "trades s = trs"
        and org: "\<forall>tr. trade s = Some tr \<longrightarrow> time tr \<in> fst ` set ?day_df"
        by auto
      show ?thesis
      proof (cases "entered s")
        case True
        with ok obtain tr where "trade s = Some tr" "exit tr = None"
          by (auto simp: open_ok_def)
        with True trs org show ?thesis
          unfolding body Continue
          by (auto simp: flow_state_def eod_close_def closed_trade_def Let_def)
      next
        case False
        with ok have "trade s = None" by (simp add: open_ok_def)
        with trs show ?thesis
          unfolding body Continue
          by (simp add: flow_state_def eod_close_def)
      qed
    qed
  qed
qed

lemma set_unique: "set (unique xs) = set xs"
  by (induction xs rule: unique.induct) auto

lemma distinct_unique: "distinct (unique xs)"
  by (induction xs rule: unique.induct) (auto simp: set_unique)

lemma days_loop_inv:
  assumes "keys = map (\<lambda>r. session_day_key (fst r)) df"
    and "distinct days"
    and "\<forall>tr\<in>set trs. closed_trade tr"
    and "distinct (map (\<lambda>tr. session_day_key (time tr)) trs)"
    and "(\<lambda>tr. session_day_key (time tr)) ` set trs \<inter> set days = {}"
  shows "(\<forall>tr\<in>set (days_loop cfg i df fm keys days trs). closed_trade tr)
       \<and> distinct (map (\<lambda>tr. session_day_key (time tr)) (days_loop cfg i df fm keys days trs))"
  using assms(2-)
proof (induction days arbitrary: trs)
  case Nil
  then show ?case by simp
next
  case (Cons day days)
  let ?out = "day_body cfg i df fm keys day trs"
  have step: "(\<forall>tr\<in>set ?out. closed_trade tr)
      \<and> distinct (map (\<lambda>tr. session_day_key (time tr)) ?out)
      \<and> (\<lambda>tr. session_day_key (time tr)) ` set ?out \<inter> set days = {}"
  proof -
    from day_body_cases [of cfg i df fm keys day trs]
    consider "?out = trs"
      | tr where "?out = trs @ [tr]" "closed_trade tr" "time tr \<in> fst ` set (day_frame df keys day)"
      by blast
    then show ?thesis
    proof cases
      case 1
      with Cons.prems show ?thesis by auto
    next
      case 2
      from 2(3) have k: "session_day_key (time tr) = day"
        unfolding assms(1) day_frame_filter by auto
      with 2(1,2) Cons.prems show ?thesis by auto
    qed
  qed
  from step Cons.prems(1) have "(\<forall>tr\<in>set (days_loop cfg i df fm keys days ?out). closed_trade tr)
       \<and> distinct (map (\<lambda>tr. session_day_key (time tr)) (days_loop cfg i df fm keys days ?out))"
    by (intro Cons.IH) auto
  then show ?case by simp
qed

lemma distinct_map_filter_le1:
  "distinct (map f xs) \<Longrightarrow> length (filter (\<lambda>x. f x = d) xs) \<le> 1"
proof (induction xs)
  case Nil
  then show ?case by simp
next
  case (Cons a xs)
  show ?case
  proof (cases "f a = d")
    case True
    with Cons.prems have "\<forall>x\<in>set xs. f x \<noteq> d" by (auto simp: image_iff)
    then have "filter (\<lambda>x. f x = d) xs = []" by (simp add: filter_empty_conv)
    with True show ?thesis by simp
  next
    case False
    with Cons show ?thesis by simp
  qed
qed

lemma make_signals_ledger:
  assumes "make_signals cfg frame0 instrument = Inr ledger"
  shows "ledger = []
       \<or> (\<exists>df fm. ledger = days_loop cfg instrument df fm (map (\<lambda>r. session_day_key (fst r)) df)
                     (unique (map (\<lambda>r. session_day_key (fst r)) df)) [])"
proof (cases frame0)
  case Columnless
  with assms show ?thesis by (simp add: make_signals_def)
next
  case (Candles df0)
  show ?thesis
  proof (cases "index_map (in_session cfg) (map fst df0)")
    case (Inl e)
    with assms Candles show ?thesis by (simp add: make_signals_def)
  next
    case (Inr in_sess)
    show ?thesis
    proof (cases "select df0 in_sess = []")
      case True
      with assms Candles Inr show ?thesis by (simp add: make_signals_def)
    next
      case False
      show ?thesis
      proof (cases "first_window_mask cfg (select df0 in_sess)")
        case (Inl e)
        with assms Candles Inr False show ?thesis by (simp add: make_signals_def)
      next
        case fm: (Inr first_mask)
        with assms Candles Inr False show ?thesis
          by (simp add: make_signals_def Let_def) blast
      qed
    qed
  qed
qed

text \<open>
  Claim C3. Every ledger that \<open>make_signals\<close> returns holds at most one trade entered
  on any UTC calendar day, and each of its trades has an exit price, an exit time and
  an exit reason that is one of \<open>SL\<close>, \<open>TP\<close>, \<open>EOD\<close>.
\<close>

theorem one_trade_per_day_closed_once:
  assumes "make_signals cfg df instrument = Inr ledger"
  shows "(\<forall>day. length (filter (\<lambda>tr. session_day_key (time tr) = day) ledger) \<le> 1)
     \<and> (\<forall>tr\<in>set ledger. exit tr \<noteq> None \<and> exit_time tr \<noteq> None
           \<and> exit_reason tr \<in> {Some ''SL'', Some ''TP'', Some ''EOD''})"
proof -
  from make_signals_ledger [OF assms] consider "ledger = []"
    | d fm where "ledger = days_loop cfg instrument d fm (map (\<lambda>r. session_day_key (fst r)) d)
          (unique (map (\<lambda>r. session_day_key (fst r)) d)) []"
    by blast
  then show ?thesis
  proof cases
    case 1
    then show ?thesis by simp
  next
    case 2
    have "(\<forall>tr\<in>set ledger. closed_trade tr)
        \<and> distinct (map (\<lambda>tr. session_day_key (time tr)) ledger)"
      unfolding 2 by (rule days_loop_inv [OF refl distinct_unique]) simp_all
    then show ?thesis
      using distinct_map_filter_le1 [of "\<lambda>tr. session_day_key (time tr)" ledger]
      by (simp add: closed_trade_def)
  qed
qed

text \<open>The ledger of the example series: an \<open>EOD\<close> exit on the first day, an \<open>SL\<close> exit on the second.\<close>

lemma example_ledger: "make_signals default_config (Candles example_series) ''EUR_USD'' =
   Inr [\<lparr> time = 27000000000000, side = ''long'', entry = 5 / 4,
          sl = 703237081813903 / 562949953421312, tp = 5634903853765965 / 4503599627370496,
          exit = Some (5 / 4), exit_time = Some 27300000000000, exit_reason = Some ''EOD'' \<rparr>,
        \<lparr> time = 113400000000000, side = ''short'', entry = 7 / 8, sl = 7 / 8,
          tp = 7870490708792679 / 9007199254740992, exit = Some (7 / 8),
          exit_time = Some 113700000000000, exit_reason = Some ''SL'' \<rparr>]"
  by code_simp

theorem one_trade_per_day_closed_once_witness:
  "\<exists>ledger. make_signals default_config (Candles example_series) ''EUR_USD'' = Inr ledger
     \<and> map exit_reason ledger = [Some ''EOD'', Some ''SL'']
     \<and> (\<forall>day. length (filter (\<lambda>tr. session_day_key (time tr) = day) ledger) \<le> 1)
     \<and> (\<forall>tr\<in>set ledger. exit tr \<noteq> None \<and> exit_time tr \<noteq> None
           \<and> exit_reason tr \<in> {Some ''SL'', Some ''TP'', Some ''EOD''})"
  using one_trade_per_day_closed_once [OF example_ledger] example_ledger
  by simp

text \<open>
  Claim C4. On a day that has in-session bars \<open>day_df\<close> and an opening window, if the
  loop runs over all bars without a \<^verbatim>\<open>break\<close> (no stop-loss or take-profit exit) and an
  entry has occurred, the day adds exactly the entered trade to the ledger, closed at the
  close of the day's last in-session bar, at that bar's time, with reason \<open>EOD\<close>.
\<close>

theorem end_of_day_forced_close:
  assumes "day_df = day_frame df day_keys day" and "day_df \<noteq> []"
    and "fw = select day_df (loc (map fst df) first_mask (map fst day_df))" and "fw \<noteq> []"
    and "bars_loop cfg instrument (long_trigger cfg instrument fw) (short_trigger cfg instrument fw)
           day_df (init_state trades0) = Continue st"
    and "entered st"
  shows "\<exists>tr. trade st = Some tr
           \<and> day_body cfg instrument df first_mask day_keys day trades0 =
               trades0 @ [tr\<lparr>exit := Some (close (snd (last day_df))),
                             exit_time := Some (fst (last day_df)),
                             exit_reason := Some ''EOD''\<rparr>]"
proof -
  note sum = bars_loop_summary [OF open_ok_init, where cfg = cfg and i = instrument
      and lt = "long_trigger cfg instrument fw" and stg = "short_trigger cfg instrument fw"
      and rows = day_df and trs1 = trades0]
  from sum assms(5) have ok: "open_ok st" and trs: "trades st = trades0"
    by (simp_all add: init_state_def)
  from ok assms(6) obtain tr where tr: "trade st = Some tr" "exit tr = None"
    by (auto simp: open_ok_def)
  have "day_body cfg instrument df first_mask day_keys day trades0 = trades (eod_close day_df st)"
    using assms(1-5) by (simp add: day_body_def Let_def flow_state_def)
  also have "\<dots> = trades0 @ [tr\<lparr>exit := Some (close (snd (last day_df))),
                             exit_time := Some (fst (last day_df)),
                             exit_reason := Some ''EOD''\<rparr>]"
    using tr assms(6) trs by (simp add: eod_close_def Let_def)
  finally show ?thesis using tr(1) by blast
qed

text \<open>The first day of the example frame.\<close>

lemma example_day:
  "day_frame example_frame (map (\<lambda>r. session_day_key (fst r)) example_frame) 0 =
     example_day_rows"
  by code_simp

lemma example_first_mask: "first_window_mask default_config example_frame = Inr example_mask"
  by code_simp

lemma example_window:
  "select example_day_rows
     (loc (map fst example_frame) example_mask
        (map fst example_day_rows)) =
   [hd example_day_rows]"
  by code_simp

lemma example_loop:
  "bars_loop default_config ''EUR_USD''
     (long_trigger default_config ''EUR_USD'' [hd example_day_rows])
     (short_trigger default_config ''EUR_USD'' [hd example_day_rows])
     example_day_rows (init_state []) =
   Continue \<lparr> entered = True, moved_be = False, high_water = Some (2561 / 2048), low_water = None,
     trade = Some \<lparr> time = 27000000000000, side = ''long'', entry = 5 / 4,
       sl = 703237081813903 / 562949953421312, tp = 5634903853765965 / 4503599627370496,
       exit = None, exit_time = None, exit_reason = None \<rparr>, trades = [] \<rparr>"
  by code_simp

theorem end_of_day_forced_close_witness:
  "day_body default_config ''EUR_USD'' example_frame example_mask
     (map (\<lambda>r. session_day_key (fst r)) example_frame) 0 [] =
   [\<lparr> time = 27000000000000, side = ''long'', entry = 5 / 4,
      sl = 703237081813903 / 562949953421312, tp = 5634903853765965 / 4503599627370496,
      exit = Some (5 / 4), exit_time = Some 27300000000000, exit_reason = Some ''EOD'' \<rparr>]"
proof -
  have ne: "example_day_rows \<noteq> []" "[hd example_day_rows] \<noteq> []"
    by (simp_all add: example_day_rows_def)
  note eod = end_of_day_forced_close [OF example_day [symmetric] ne(1) example_window [symmetric]
      ne(2) example_loop]
  from eod show ?thesis
    by (simp add: example_day_rows_def example_bar_def)
qed

lemma index_map_all_False:
  "\<forall>t\<in>set idx. f t = Inr False \<Longrightarrow> index_map f idx = Inr (map (\<lambda>_. False) idx)"
  by (induction idx) auto

lemma select_all_False: "\<forall>b\<in>set flags. \<not> b \<Longrightarrow> select xs flags = []"
  unfolding select_def by (auto simp: filter_empty_conv dest: set_zip_rightD)

text \<open>
  Claim C5, as stated, fails for one empty series: on the column-less frame
  \<^verbatim>\<open>pd.DataFrame()\<close> the first statement of \<^verbatim>\<open>make_signals\<close> raises \<^verbatim>\<open>AttributeError\<close>.
\<close>

theorem columnless_frame_counterexample:
  "make_signals default_config Columnless ''EUR_USD'' = Inl AttributeError
   \<and> make_signals default_config Columnless ''EUR_USD'' \<noteq> Inr []"
  by (simp add: make_signals_def)

text \<open>
  Claim C5, amended. \<open>make_signals\<close> returns the empty ledger, not an error, for the
  empty series that carries a \<^verbatim>\<open>DatetimeIndex\<close>, and for every series all of whose bars
  are found to be outside the session window.
\<close>

theorem no_session_bars_empty_ledger:
  "make_signals cfg (Candles []) instrument = Inr []
   \<and> ((\<forall>r\<in>set df. in_session cfg (fst r) = Inr False) \<longrightarrow>
        make_signals cfg (Candles df) instrument = Inr [])"
proof -
  have "make_signals cfg (Candles df) instrument = Inr []"
    if "\<forall>r\<in>set df. in_session cfg (fst r) = Inr False"
  proof -
    define in_sess where "in_sess = map (\<lambda>_. False) (map fst df)"
    from that have "index_map (in_session cfg) (map fst df) = Inr in_sess"
      unfolding in_sess_def by (intro index_map_all_False) auto
    moreover have "select df in_sess = []"
      by (rule select_all_False) (simp add: in_sess_def)
    ultimately show ?thesis
      by (simp add: make_signals_def)
  qed
  moreover have "make_signals cfg (Candles []) instrument = Inr []"
    by (simp add: make_signals_def select_def)
  ultimately show ?thesis by blast
qed

text \<open>A bar at 03:00 and a bar at 18:00, with the default session 07:00 to 17:00.\<close>

theorem no_session_bars_empty_ledger_witness:
  "make_signals default_config (Candles []) ''EUR_USD'' = Inr []
   \<and> make_signals default_config
       (Candles [(10800000000000, example_bar 1 (17 / 16) 1 (17 / 16)),
        (64800000000000, example_bar 1 (17 / 16) 1 (17 / 16))]) ''EUR_USD'' = Inr []"
proof -
  have "in_session default_config 10800000000000 = Inr False"
    "in_session default_config 64800000000000 = Inr False"
    by code_simp+
  then show ?thesis
    using no_session_bars_empty_ledger [of default_config "''EUR_USD''"
        "[(10800000000000, example_bar 1 (17 / 16) 1 (17 / 16)),
          (64800000000000, example_bar 1 (17 / 16) 1 (17 / 16))]"]
    by simp
qed

end
